theory Spec2Isabelle
  imports Complex_Main
begin

section \<open>JavaScript values\<close>

text \<open>
  Values that travel through the untyped (\<open>any\<close>) positions of the program: tool parameters,
  enum lists of a schema, tool result data. Numbers are the finite doubles, read as reals
  (NaN and the infinities are left out). Strings are sequences of code units, here
  \<open>char\<close>; \<open>length\<close> is the \<open>.length\<close> of the source.
\<close>

datatype jsval =
    JUndefined
  | JNull
  | JBool bool
  | JNumber real
  | JString string
  | JArray "jsval list"
  | JObject "(string \<times> jsval) list"
  | JFunction

text \<open>\<open>typeof value\<close>.\<close>

fun typeof :: "jsval \<Rightarrow> string" where
  "typeof JUndefined = ''undefined''"
| "typeof JNull = ''object''"
| "typeof (JBool b) = ''boolean''"
| "typeof (JNumber n) = ''number''"
| "typeof (JString s) = ''string''"
| "typeof (JArray xs) = ''object''"
| "typeof (JObject kvs) = ''object''"
| "typeof JFunction = ''function''"

text \<open>\<open>Array.isArray(value)\<close>.\<close>

fun isArray :: "jsval \<Rightarrow> bool" where
  "isArray (JArray xs) = True"
| "isArray v = False"

text \<open>
  \<open>array.includes(value)\<close> compares with SameValueZero: primitives by value, arrays,
  objects and functions by identity. A parameter value that is an array or an object is a
  fresh one, never identical to a member of a schema's enum list.
\<close>

fun isPrimitive :: "jsval \<Rightarrow> bool" where
  "isPrimitive (JArray xs) = False"
| "isPrimitive (JObject kvs) = False"
| "isPrimitive JFunction = False"
| "isPrimitive v = True"

definition array_includes :: "jsval list \<Rightarrow> jsval \<Rightarrow> bool" where
  "array_includes xs v = (isPrimitive v \<and> List.member xs v)"

text \<open>
  The parameter object of a tool call: its own properties. The members every plain object
  inherits from \<open>Object.prototype\<close> are visible to the \<open>in\<close> operator and to a property
  read as well.
\<close>

type_synonym params = "string \<rightharpoonup> jsval"

definition object_prototype_keys :: "string list" where
  "object_prototype_keys =
     [''constructor'', ''__defineGetter__'', ''__defineSetter__'', ''hasOwnProperty'',
      ''__lookupGetter__'', ''__lookupSetter__'', ''isPrototypeOf'',
      ''propertyIsEnumerable'', ''toString'', ''valueOf'', ''__proto__'',
      ''toLocaleString'']"

text \<open>\<open>key in params\<close>.\<close>

definition js_in :: "string \<Rightarrow> params \<Rightarrow> bool" where
  "js_in key p = (p key \<noteq> None \<or> List.member object_prototype_keys key)"

text \<open>\<open>params[key]\<close>.\<close>

definition js_get :: "params \<Rightarrow> string \<Rightarrow> jsval" where
  "js_get p key =
     (case p key of
        Some v \<Rightarrow> v
      | None \<Rightarrow>
          if key = ''__proto__'' then JObject []
          else if List.member object_prototype_keys key then JFunction
          else JUndefined)"

text \<open>What a \<open>throw\<close> carries: an \<open>Error\<close> with its message, or \<open>undefined\<close>.\<close>

datatype js_error = Error string | Undefined

section \<open>Tool types (types/tools)\<close>

text \<open>One entry of \<open>schema.properties\<close>; every field is optional in the source.\<close>

record prop_schema =
  prop_type :: "string option"
  minLength :: "real option"
  maxLength :: "real option"
  minimum :: "real option"
  maximum :: "real option"
  enum :: "jsval list option"

text \<open>\<open>JSONSchema\<close>; \<open>properties\<close> in the order \<open>Object.entries\<close> walks it.\<close>

record json_schema =
  schema_type :: string
  properties :: "(string \<times> prop_schema) list option"
  required :: "string list option"

text \<open>
  The messages \<open>validateParameters\<close> returns, one constructor per template of the source,
  carrying the values the template interpolates.
\<close>

datatype validation_error =
    MissingRequired string
    \<comment> \<open>\<open>Missing required parameter: ${requiredParam}\<close>\<close>
  | TypeMismatch string string string
    \<comment> \<open>\<open>Parameter '${key}' must be of type '${prop.type}', got '${actualType}'\<close>\<close>
  | TooShort string real
    \<comment> \<open>\<open>Parameter '${key}' must be at least ${prop.minLength} characters\<close>\<close>
  | TooLong string real
    \<comment> \<open>\<open>Parameter '${key}' must be at most ${prop.maxLength} characters\<close>\<close>
  | BelowMinimum string real
    \<comment> \<open>\<open>Parameter '${key}' must be at least ${prop.minimum}\<close>\<close>
  | AboveMaximum string real
    \<comment> \<open>\<open>Parameter '${key}' must be at most ${prop.maximum}\<close>\<close>
  | NotInEnum string "jsval list"
    \<comment> \<open>\<open>Parameter '${key}' must be one of: ${prop.enum.join(', ')}\<close>\<close>

text \<open>The \<open>error\<close> string of a \<open>ToolResult\<close>.\<close>

datatype tool_error =
    ToolNotFound string
    \<comment> \<open>\<open>Tool '${name}' not found\<close>\<close>
  | RateLimitExceeded string
    \<comment> \<open>\<open>Rate limit exceeded for tool '${name}'. Please try again later.\<close>\<close>
  | ParameterValidationFailed validation_error
    \<comment> \<open>\<open>Parameter validation failed: ${validationError}\<close>\<close>
  | ErrorMessage string
    \<comment> \<open>any other text: a thrown error's message, or what a tool body wrote\<close>

record tool_result =
  success :: bool
  data :: "jsval option"
  error :: "tool_error option"
  executionTime :: "int option"
  result_metadata :: "(string \<times> jsval) list option"

record tool_context =
  ctx_userId :: "string option"
  ctx_agentId :: string
  ctx_conversationId :: "string option"
  ctx_timestamp :: int

text \<open>
  What awaiting a tool body gives: the result it resolves to, or what it throws. A thrown
  value other than \<open>undefined\<close> and \<open>null\<close> is given by its \<open>message\<close> property, if
  it has one; \<open>undefined\<close> and \<open>null\<close> have no properties to read.
\<close>

datatype tool_outcome = Returns tool_result | Throws "string option" | ThrowsNullish

text \<open>\<open>rateLimit\<close>: \<open>calls\<close> per \<open>period\<close>, the period in seconds.\<close>

record rate_limit =
  calls :: int
  period :: int

text \<open>A \<open>Tool\<close>. Its \<open>category\<close>, \<open>requiresAuth\<close> and \<open>cost\<close> are never read by the
  registry and are left out.\<close>

record tool =
  tool_name :: string
  description :: string
  parameters :: json_schema
  tool_execute :: "params \<Rightarrow> tool_context \<Rightarrow> tool_outcome"
  rateLimit :: "rate_limit option"

record tool_execution_log =
  log_id :: string
  log_toolName :: string
  log_agentId :: string
  log_userId :: "string option"
  log_parameters :: params
  log_result :: tool_result
  log_timestamp :: int
  log_duration :: int

section \<open>Tool registry (ToolRegistry)\<close>

record tracker =
  tracker_calls :: int
  resetTime :: int

record registry =
  tools :: "string \<rightharpoonup> tool"
  executionLogs :: "tool_execution_log list"
  rateLimitTracker :: "string \<rightharpoonup> tracker"

definition new_registry :: registry where
  "new_registry = \<lparr>tools = Map.empty, executionLogs = [], rateLimitTracker = Map.empty\<rparr>"

datatype register_error =
    AlreadyRegistered string
  | InvalidName
  | InvalidDescription

text \<open>
  \<open>validateTool\<close>: of its four checks, the record type leaves the two on empty strings;
  a schema and a body are always there.
\<close>

definition validateTool :: "tool \<Rightarrow> register_error option" where
  "validateTool t =
     (if tool_name t = [] then Some InvalidName
      else if description t = [] then Some InvalidDescription
      else None)"

definition register :: "registry \<Rightarrow> tool \<Rightarrow> register_error + registry" where
  "register reg t =
     (if tools reg (tool_name t) \<noteq> None then Inl (AlreadyRegistered (tool_name t))
      else case validateTool t of
        Some e \<Rightarrow> Inl e
      | None \<Rightarrow> Inr (reg\<lparr>tools := (tools reg)(tool_name t \<mapsto> t)\<rparr>))"

subsection \<open>validateParameters\<close>

text \<open>The loop over \<open>schema.required\<close>: the first missing key ends it.\<close>

fun validate_required :: "string list \<Rightarrow> params \<Rightarrow> validation_error option" where
  "validate_required [] p = None"
| "validate_required (requiredParam # rest) p =
     (if \<not> js_in requiredParam p then Some (MissingRequired requiredParam)
      else validate_required rest p)"

text \<open>\<open>Array.isArray(value) ? 'array' : typeof value\<close>.\<close>

definition actualType :: "jsval \<Rightarrow> string" where
  "actualType v = (if isArray v then ''array'' else typeof v)"

text \<open>
  The checks on one declared key that is present, in the order of the source. A JavaScript
  condition \<open>prop.minLength && ...\<close> holds only for a number that is not zero;
  \<open>prop.type\<close> only for a string that is not empty; \<open>prop.enum\<close> for any list.
\<close>

definition validate_property :: "string \<Rightarrow> prop_schema \<Rightarrow> jsval \<Rightarrow> validation_error option" where
  "validate_property key prop v =
     (case (case prop_type prop of
              Some t \<Rightarrow> if t \<noteq> [] \<and> actualType v \<noteq> t
                        then Some (TypeMismatch key t (actualType v)) else None
            | None \<Rightarrow> None) of
        Some e \<Rightarrow> Some e
      | None \<Rightarrow>
     (case (case (prop_type prop, v) of
              (Some t, JString s) \<Rightarrow>
                if t = ''string'' then
                  (case minLength prop of
                     Some m \<Rightarrow> if m \<noteq> 0 \<and> real (length s) < m then Some (TooShort key m)
                               else (case maxLength prop of
                                       Some M \<Rightarrow> if M \<noteq> 0 \<and> real (length s) > M
                                                 then Some (TooLong key M) else None
                                     | None \<Rightarrow> None)
                   | None \<Rightarrow> (case maxLength prop of
                                 Some M \<Rightarrow> if M \<noteq> 0 \<and> real (length s) > M
                                           then Some (TooLong key M) else None
                               | None \<Rightarrow> None))
                else None
            | _ \<Rightarrow> None) of
        Some e \<Rightarrow> Some e
      | None \<Rightarrow>
     (case (case (prop_type prop, v) of
              (Some t, JNumber n) \<Rightarrow>
                if t = ''number'' then
                  (case minimum prop of
                     Some m \<Rightarrow> if n < m then Some (BelowMinimum key m)
                               else (case maximum prop of
                                       Some M \<Rightarrow> if n > M then Some (AboveMaximum key M) else None
                                     | None \<Rightarrow> None)
                   | None \<Rightarrow> (case maximum prop of
                                 Some M \<Rightarrow> if n > M then Some (AboveMaximum key M) else None
                               | None \<Rightarrow> None))
                else None
            | _ \<Rightarrow> None) of
        Some e \<Rightarrow> Some e
      | None \<Rightarrow>
     (case enum prop of
        Some vs \<Rightarrow> if \<not> array_includes vs v then Some (NotInEnum key vs) else None
      | None \<Rightarrow> None))))"

text \<open>The loop over \<open>Object.entries(schema.properties)\<close>; keys the call leaves out are skipped.\<close>

fun validate_properties :: "(string \<times> prop_schema) list \<Rightarrow> params \<Rightarrow> validation_error option" where
  "validate_properties [] p = None"
| "validate_properties ((key, prop) # rest) p =
     (if js_in key p then
        (case validate_property key prop (js_get p key) of
           Some e \<Rightarrow> Some e
         | None \<Rightarrow> validate_properties rest p)
      else validate_properties rest p)"

definition validateParameters :: "params \<Rightarrow> json_schema \<Rightarrow> validation_error option" where
  "validateParameters p schema =
     (case (if schema_type schema = ''object''
            then (case required schema of Some rs \<Rightarrow> validate_required rs p | None \<Rightarrow> None)
            else None) of
        Some e \<Rightarrow> Some e
      | None \<Rightarrow>
          (case properties schema of
             Some props \<Rightarrow> validate_properties props p
           | None \<Rightarrow> None))"

subsection \<open>checkRateLimit, logExecution, execute\<close>

text \<open>\<open>now\<close> is the value \<open>Date.now()\<close> returns inside the call.\<close>

definition checkRateLimit :: "registry \<Rightarrow> int \<Rightarrow> string \<Rightarrow> int \<Rightarrow> int \<Rightarrow> bool \<times> registry" where
  "checkRateLimit reg now toolName maxCalls per =
     (let fresh = \<lparr>tracker_calls = 1, resetTime = now + per * 1000\<rparr> in
      case rateLimitTracker reg toolName of
        None \<Rightarrow> (True, reg\<lparr>rateLimitTracker := (rateLimitTracker reg)(toolName \<mapsto> fresh)\<rparr>)
      | Some tr \<Rightarrow>
          if now > resetTime tr
          then (True, reg\<lparr>rateLimitTracker := (rateLimitTracker reg)(toolName \<mapsto> fresh)\<rparr>)
          else if tracker_calls tr \<ge> maxCalls then (False, reg)
          else (True, reg\<lparr>rateLimitTracker :=
                  (rateLimitTracker reg)(toolName \<mapsto> tr\<lparr>tracker_calls := tracker_calls tr + 1\<rparr>)\<rparr>))"

text \<open>\<open>push\<close>, then one \<open>shift\<close> when the log has grown past 1000.\<close>

definition logExecution :: "registry \<Rightarrow> tool_execution_log \<Rightarrow> registry" where
  "logExecution reg entry =
     (let logs = executionLogs reg @ [entry] in
      reg\<lparr>executionLogs := (if length logs > 1000 then tl logs else logs)\<rparr>)"

text \<open>
  What the environment hands to one \<open>execute\<close> call: the three readings of
  \<open>Date.now()\<close> (in \<open>checkRateLimit\<close>, before the body, after the body) and the
  \<open>crypto.randomUUID()\<close> of the log entry.
\<close>

record exec_env =
  now_check :: int
  now_start :: int
  now_end :: int
  uuid :: string

text \<open>
  \<open>execute(name, params, context)\<close>. The three early returns and the \<open>catch\<close> block
  build their result in place. The \<open>catch\<close> block reads \<open>error.message\<close>, which itself
  throws when the value caught is \<open>undefined\<close> or \<open>null\<close>: then the call rejects.
\<close>

definition execute ::
  "registry \<Rightarrow> exec_env \<Rightarrow> string \<Rightarrow> params \<Rightarrow> tool_context
     \<Rightarrow> (js_error + tool_result) \<times> registry" where
  "execute reg env name p context =
     (case tools reg name of
        None \<Rightarrow>
          (Inr \<lparr>success = False, data = None, error = Some (ToolNotFound name),
                executionTime = None, result_metadata = None\<rparr>, reg)
      | Some t \<Rightarrow>
          (let (canExecute, reg1) =
                 (case rateLimit t of
                    Some rl \<Rightarrow> checkRateLimit reg (now_check env) name (calls rl) (period rl)
                  | None \<Rightarrow> (True, reg))
           in if \<not> canExecute then
                (Inr \<lparr>success = False, data = None, error = Some (RateLimitExceeded name),
                      executionTime = None, result_metadata = None\<rparr>, reg1)
              else
                (case validateParameters p (parameters t) of
                   Some validationError \<Rightarrow>
                     (Inr \<lparr>success = False, data = None,
                           error = Some (ParameterValidationFailed validationError),
                           executionTime = None, result_metadata = None\<rparr>, reg1)
                 | None \<Rightarrow>
                     (let startTime = now_start env in
                      case tool_execute t p context of
                        Returns result \<Rightarrow>
                          (let duration = now_end env - startTime;
                               reg2 = logExecution reg1
                                 \<lparr>log_id = uuid env, log_toolName = name,
                                  log_agentId = ctx_agentId context,
                                  log_userId = ctx_userId context,
                                  log_parameters = p, log_result = result,
                                  log_timestamp = ctx_timestamp context,
                                  log_duration = duration\<rparr>
                           in (Inr (result\<lparr>executionTime := Some duration\<rparr>), reg2))
                      | Throws msg \<Rightarrow>
                          (let duration = now_end env - startTime in
                           (Inr \<lparr>success = False, data = None,
                                 error = Some (ErrorMessage
                                   (case msg of
                                      Some m \<Rightarrow> if m \<noteq> [] then m else ''Tool execution failed''
                                    | None \<Rightarrow> ''Tool execution failed'')),
                                 executionTime = Some duration, result_metadata = None\<rparr>, reg1))
                      | ThrowsNullish \<Rightarrow>
                          (Inl (Error ''Cannot read properties of undefined''), reg1)))))"

section \<open>Helpers (utils/helpers)\<close>

text \<open>\<open>Math.ceil(text.length / 4)\<close>.\<close>

definition estimateTokenCount :: "string \<Rightarrow> nat" where
  "estimateTokenCount text = nat \<lceil>real (length text) / 4\<rceil>"

text \<open>
  \<open>String.prototype.trim\<close> removes white space and line terminators from both ends:
  of the code units a \<open>char\<close> holds, these are tab, line feed, vertical tab, form feed,
  carriage return, space and the no-break space.
\<close>

definition isWhiteSpace :: "char \<Rightarrow> bool" where
  "isWhiteSpace c = List.member [9, 10, 11, 12, 13, 32, 160 :: nat] (of_char c)"

definition trim :: "string \<Rightarrow> string" where
  "trim s = rev (dropWhile isWhiteSpace (rev (dropWhile isWhiteSpace s)))"

text \<open>\<open>input.trim().replace(/[<>]/g, '')\<close>.\<close>

definition sanitizeInput :: "string \<Rightarrow> string" where
  "sanitizeInput input = filter (\<lambda>c. c \<noteq> CHR ''<'' \<and> c \<noteq> CHR ''>'') (trim input)"

text \<open>\<open>xs.join(sep)\<close>.\<close>

fun join :: "string \<Rightarrow> string list \<Rightarrow> string" where
  "join sep [] = []"
| "join sep [x] = x"
| "join sep (x # y # ys) = x @ sep @ join sep (y # ys)"

text \<open>\<open>content.split(' ')\<close> for a one-character separator: never an empty list.\<close>

fun split :: "char \<Rightarrow> string \<Rightarrow> string list" where
  "split sep [] = [] # []"
| "split sep (c # cs) =
     (if c = sep then [] # split sep cs
      else (case split sep cs of
              w # ws \<Rightarrow> (c # w) # ws
            | [] \<Rightarrow> [c] # []))"

text \<open>The decimal text of a number, as a template literal writes it.\<close>

definition digit_char :: "nat \<Rightarrow> char" where
  "digit_char d = ''0123456789'' ! d"

function show_nat :: "nat \<Rightarrow> string" where
  "show_nat n = (if n < 10 then [digit_char n] else show_nat (n div 10) @ [digit_char (n mod 10)])"
  by pat_completeness auto
termination
  by (relation "measure id") auto

declare show_nat.simps [simp del]

definition show_int :: "int \<Rightarrow> string" where
  "show_int i = (if i < 0 then CHR ''-'' # show_nat (nat (- i)) else show_nat (nat i))"

section \<open>Agent types (types)\<close>

datatype role = User | Assistant | System

record msg_metadata =
  responseTime :: int
  model :: string
  tokensUsed :: nat

record message =
  msg_id :: string
  msg_role :: role
  msg_content :: string
  msg_timestamp :: int
  msg_metadata :: "msg_metadata option"

text \<open>One element of the prompt sent to the model: \<open>{role, content}\<close>.\<close>

record segment =
  seg_role :: role
  seg_content :: string

record memory =
  mem_id :: string
  mem_type :: string
  mem_content :: string
  mem_embedding :: "real list"
  mem_timestamp :: int
  mem_userId :: string
  mem_importance :: real
  mem_tags :: "string list"

record workflow =
  wf_id :: string
  wf_name :: string
  wf_status :: string

record agent_state =
  conversationHistory :: "message list"
  userContext_userId :: string
  activeWorkflows :: "workflow list"
  lastActivity :: int

section \<open>The agent and its collaborators\<close>

text \<open>
  What \<open>env.AI.run\<close> resolves to: an object that may have a \<open>response\<close> text and a
  first \<open>data\<close> vector (neither, for \<open>null\<close> or any other shape).
\<close>

type_synonym ai_response = "string option \<times> real list option"

datatype ai_request = ChatRequest string "segment list" | EmbedRequest string string

record vmatch =
  match_id :: string
  match_values :: "real list"
  match_score :: real
  match_type :: string
  match_content :: string
  match_timestamp :: int
  match_userId :: string

record vec_entry =
  ve_id :: string
  ve_values :: "real list"
  ve_content :: string
  ve_type :: string
  ve_timestamp :: int
  ve_messageId :: string
  ve_userId :: string
  ve_role :: string

record workflow_row =
  row_id :: string
  row_name :: string
  row_status :: string
  row_params :: jsval
  row_result :: "jsval option"
  row_created_at :: int
  row_completed_at :: "int option"

text \<open>The events the agent writes to a socket.\<close>

datatype ws_event =
    Connected string int
    \<comment> \<open>\<open>{type: 'connected', message, agentId, connectionId, timestamp}\<close>; the first two are fixed\<close>
  | Typing int
    \<comment> \<open>\<open>{type: 'typing', timestamp}\<close>\<close>
  | Token string int
    \<comment> \<open>\<open>{type: 'token', content, timestamp}\<close>\<close>
  | MessageComplete string int
    \<comment> \<open>\<open>{type: 'message_complete', messageId, timestamp}\<close>\<close>
  | ErrorEvent string "string option" int
    \<comment> \<open>\<open>{type: 'error', message, error?, timestamp}\<close>\<close>
  | Pong int
    \<comment> \<open>\<open>{type: 'pong', timestamp}\<close>\<close>
  | History "message list" int
    \<comment> \<open>\<open>{type: 'history', history, timestamp}\<close>\<close>
  | HistoryCleared int
    \<comment> \<open>\<open>{type: 'history_cleared', message, timestamp}\<close>\<close>

text \<open>What a socket's \<open>message\<close> listener receives: \<open>event.data\<close> after \<open>JSON.parse\<close>, by
  its \<open>type\<close>, or the error \<open>JSON.parse\<close> throws.\<close>

datatype ws_request =
    MessageRequest string "string option"
  | PingRequest
  | GetHistoryRequest
  | ClearHistoryRequest
  | UnknownRequest string
  | Unparseable js_error

text \<open>
  An \<open>AIAgent\<close> with everything it reaches. The first group are the answers of the
  outside world, indexed by how many calls of that kind came before: the \<open>k\<close>-th
  \<open>Date.now()\<close>, the \<open>k\<close>-th \<open>Math.random().toString(36).substring(2, 9)\<close>, the
  \<open>k\<close>-th \<open>env.AI.run\<close>, the \<open>k\<close>-th call of \<open>env.VECTORIZE\<close> (\<open>Inl\<close> when it
  throws; an \<open>upsert\<close> that resolves ignores the matches), and whether the \<open>k\<close>-th
  operation on durable storage (\<open>sql.exec\<close>, \<open>storage.put\<close>) throws. The second
  group counts and records those calls. The third is what the agent has written: the rows
  of its SQL tables, the stored state, the vector index, the events sent on each socket
  (a socket is named by its connection id). The last is the object's own fields. Logging
  is left out.
\<close>

record agent =
  clock :: "nat \<Rightarrow> int"
  random :: "nat \<Rightarrow> string"
  ai :: "nat \<Rightarrow> js_error + ai_response"
  vectorize :: "nat \<Rightarrow> js_error + vmatch list"
  durable :: "nat \<Rightarrow> js_error option"
  clock_reads :: nat
  random_reads :: nat
  ai_log :: "ai_request list"
  vec_calls :: nat
  durable_ops :: nat
  slept :: "int list"
  sql_messages :: "message list"
  sql_workflows :: "workflow_row list"
  stored_state :: "agent_state option"
  vector_index :: "vec_entry list"
  sent :: "(string \<times> ws_event) list"
  state :: agent_state
  activeConnections :: "string list"

definition MAX_CONTEXT_TOKENS :: nat where
  "MAX_CONTEXT_TOKENS = 4096"

definition MAX_HISTORY_MESSAGES :: nat where
  "MAX_HISTORY_MESSAGES = 50"

definition EMBEDDING_MODEL :: string where
  "EMBEDDING_MODEL = ''@cf/baai/bge-base-en-v1.5''"

definition LLM_MODEL :: string where
  "LLM_MODEL = ''@cf/meta/llama-3.3-70b-instruct-fp8-fast''"

subsection \<open>Calls to the outside\<close>

definition Date_now :: "agent \<Rightarrow> int \<times> agent" where
  "Date_now a = (clock a (clock_reads a), a\<lparr>clock_reads := Suc (clock_reads a)\<rparr>)"

text \<open>\<open>`${Date.now()}-${Math.random().toString(36).substring(2, 9)}`\<close>.\<close>

definition generateId :: "agent \<Rightarrow> string \<times> agent" where
  "generateId a =
     (let (t, a1) = Date_now a;
          r = random a1 (random_reads a1);
          a2 = a1\<lparr>random_reads := Suc (random_reads a1)\<rparr>
      in (show_int t @ ''-'' @ r, a2))"

definition sleep :: "int \<Rightarrow> agent \<Rightarrow> agent" where
  "sleep ms a = a\<lparr>slept := slept a @ [ms]\<rparr>"

definition AI_run :: "ai_request \<Rightarrow> agent \<Rightarrow> (js_error + ai_response) \<times> agent" where
  "AI_run req a = (ai a (length (ai_log a)), a\<lparr>ai_log := ai_log a @ [req]\<rparr>)"

definition VECTORIZE_call :: "agent \<Rightarrow> (js_error + vmatch list) \<times> agent" where
  "VECTORIZE_call a = (vectorize a (vec_calls a), a\<lparr>vec_calls := Suc (vec_calls a)\<rparr>)"

text \<open>One operation on durable storage: it throws, or \<open>write\<close> takes effect.\<close>

definition durable_op :: "(agent \<Rightarrow> agent) \<Rightarrow> agent \<Rightarrow> (js_error + unit) \<times> agent" where
  "durable_op write a =
     (let a1 = a\<lparr>durable_ops := Suc (durable_ops a)\<rparr> in
      case durable a (durable_ops a) of
        Some e \<Rightarrow> (Inl e, a1)
      | None \<Rightarrow> (Inr (), write a1))"

text \<open>\<open>ws.send(JSON.stringify(message))\<close>; a failing send is logged and swallowed.\<close>

definition sendWebSocketMessage :: "string \<Rightarrow> ws_event \<Rightarrow> agent \<Rightarrow> agent" where
  "sendWebSocketMessage ws ev a = a\<lparr>sent := sent a @ [(ws, ev)]\<rparr>"

subsection \<open>retry\<close>

text \<open>
  The loop of \<open>retry\<close> with \<open>k\<close> rounds left at index \<open>i\<close>: the first success returns,
  a failure is remembered (\<open>error instanceof Error ? error : new Error(String(error))\<close>)
  and, unless it was the last round, followed by a sleep of \<open>delayMs * 2^i\<close>; after the
  last round the remembered error is thrown.
\<close>

fun retry_loop ::
  "nat \<Rightarrow> nat \<Rightarrow> (agent \<Rightarrow> (js_error + 'a) \<times> agent) \<Rightarrow> int \<Rightarrow> js_error \<Rightarrow> agent
     \<Rightarrow> (js_error + 'a) \<times> agent" where
  "retry_loop 0 i fn delayMs lastError a = (Inl lastError, a)"
| "retry_loop (Suc k) i fn delayMs lastError a =
     (case fn a of
        (Inr v, a1) \<Rightarrow> (Inr v, a1)
      | (Inl e, a1) \<Rightarrow>
          retry_loop k (Suc i) fn delayMs
            (case e of Error m \<Rightarrow> Error m | Undefined \<Rightarrow> Error ''undefined'')
            (if 0 < k then sleep (delayMs * 2 ^ i) a1 else a1))"

definition retry ::
  "(agent \<Rightarrow> (js_error + 'a) \<times> agent) \<Rightarrow> nat \<Rightarrow> int \<Rightarrow> agent \<Rightarrow> (js_error + 'a) \<times> agent" where
  "retry fn maxRetries delayMs a = retry_loop maxRetries 0 fn delayMs Undefined a"

subsection \<open>Persistence\<close>

text \<open>\<open>INSERT INTO messages\<close>.\<close>

definition saveMessage :: "message \<Rightarrow> agent \<Rightarrow> (js_error + unit) \<times> agent" where
  "saveMessage m a = durable_op (\<lambda>b. b\<lparr>sql_messages := sql_messages b @ [m]\<rparr>) a"

definition saveState :: "agent \<Rightarrow> (js_error + unit) \<times> agent" where
  "saveState a =
     (let (t, a1) = Date_now a;
          a2 = a1\<lparr>state := (state a1)\<lparr>lastActivity := t\<rparr>\<rparr>
      in durable_op (\<lambda>b. b\<lparr>stored_state := Some (state b)\<rparr>) a2)"

subsection \<open>Memory\<close>

definition generateEmbedding :: "string \<Rightarrow> agent \<Rightarrow> (js_error + real list) \<times> agent" where
  "generateEmbedding text a =
     (case AI_run (EmbedRequest EMBEDDING_MODEL text) a of
        (Inl e, a1) \<Rightarrow> (Inl e, a1)
      | (Inr (r, d), a1) \<Rightarrow>
          (case d of
             Some v \<Rightarrow> (Inr v, a1)
           | None \<Rightarrow> (Inl (Error ''Invalid embedding response''), a1)))"

text \<open>
  \<open>storeInMemory(content, type, {messageId, userId, role})\<close>: every failure inside is
  caught and dropped.
\<close>

definition storeInMemory ::
  "string \<Rightarrow> string \<Rightarrow> string \<Rightarrow> string \<Rightarrow> string \<Rightarrow> agent \<Rightarrow> agent" where
  "storeInMemory content type messageId userId role a =
     (case generateEmbedding content a of
        (Inl e, a1) \<Rightarrow> a1
      | (Inr embedding, a1) \<Rightarrow>
          (let (newId, a2) = generateId a1;
               (t, a3) = Date_now a2
           in case VECTORIZE_call a3 of
                (Inl e, a4) \<Rightarrow> a4
              | (Inr ms, a4) \<Rightarrow>
                  a4\<lparr>vector_index := vector_index a4 @
                       [\<lparr>ve_id = newId, ve_values = embedding, ve_content = content,
                         ve_type = type, ve_timestamp = t, ve_messageId = messageId,
                         ve_userId = userId, ve_role = role\<rparr>]\<rparr>))"

definition memory_of_match :: "vmatch \<Rightarrow> memory" where
  "memory_of_match m =
     \<lparr>mem_id = match_id m, mem_type = match_type m, mem_content = match_content m,
      mem_embedding = match_values m, mem_timestamp = match_timestamp m,
      mem_userId = match_userId m, mem_importance = match_score m, mem_tags = []\<rparr>"

text \<open>\<open>searchMemory(query)\<close>: any failure gives the empty list.\<close>

definition searchMemory :: "string \<Rightarrow> agent \<Rightarrow> memory list \<times> agent" where
  "searchMemory query a =
     (case generateEmbedding query a of
        (Inl e, a1) \<Rightarrow> ([], a1)
      | (Inr embedding, a1) \<Rightarrow>
          (case VECTORIZE_call a1 of
             (Inl e, a2) \<Rightarrow> ([], a2)
           | (Inr ms, a2) \<Rightarrow> (map memory_of_match ms, a2)))"

subsection \<open>buildContext\<close>

definition system_prompt :: string where
  "system_prompt = ''You are a helpful AI assistant powered by Cloudflare Workers AI. You have access to conversation history and relevant memories. Be concise, helpful, and friendly.''"

text \<open>The messages pushed before the history loop: the system prompt, then the memories
  folded into one segment when there are any.\<close>

definition system_segments :: "memory list \<Rightarrow> segment list" where
  "system_segments memories =
     \<lparr>seg_role = System, seg_content = system_prompt\<rparr> #
     (if length memories > 0 then
        (let memoryContext = join [CHR 0x0A] (map (\<lambda>m. ''- '' @ mem_content m) memories) in
         [\<lparr>seg_role = System,
           seg_content = ''Relevant context from past conversations:'' @ [CHR 0x0A] @ memoryContext\<rparr>])
      else [])"

text \<open>
  The loop over the reversed history: it breaks at the first message that would take the
  running count over the limit; a message that fits is put in front (\<open>unshift\<close>).
\<close>

fun history_loop :: "message list \<Rightarrow> nat \<Rightarrow> segment list \<Rightarrow> segment list" where
  "history_loop [] tokenCount messages = messages"
| "history_loop (msg # rest) tokenCount messages =
     (let msgTokens = estimateTokenCount (msg_content msg) in
      if tokenCount + msgTokens > MAX_CONTEXT_TOKENS then messages
      else history_loop rest (tokenCount + msgTokens)
             (\<lparr>seg_role = msg_role msg, seg_content = msg_content msg\<rparr> # messages))"

definition buildContext :: "agent \<Rightarrow> string \<Rightarrow> memory list \<Rightarrow> segment list" where
  "buildContext a currentMessage memories =
     (let messages = system_segments memories;
          tokenCount = estimateTokenCount (join '' '' (map seg_content messages));
          recentHistory = rev (conversationHistory (state a))
      in history_loop recentHistory tokenCount messages)"

subsection \<open>generateAIResponse\<close>

definition apology :: string where
  "apology = ''I apologize, but I encountered an error generating a response. Please try again.''"

definition generateAIResponse :: "segment list \<Rightarrow> agent \<Rightarrow> string \<times> agent" where
  "generateAIResponse messages a =
     (case retry (AI_run (ChatRequest LLM_MODEL messages)) 3 1000 a of
        (Inr (Some r, d), a1) \<Rightarrow> if r \<noteq> [] then (r, a1) else (apology, a1)
      | (Inr (None, d), a1) \<Rightarrow> (apology, a1)
      | (Inl e, a1) \<Rightarrow> (apology, a1))"

subsection \<open>processMessage\<close>

definition trimHistory :: "agent \<Rightarrow> agent" where
  "trimHistory a =
     (let h = conversationHistory (state a) in
      if length h > MAX_HISTORY_MESSAGES
      then a\<lparr>state := (state a)\<lparr>conversationHistory := drop (length h - MAX_HISTORY_MESSAGES) h\<rparr>\<rparr>
      else a)"

definition push_history :: "message \<Rightarrow> agent \<Rightarrow> agent" where
  "push_history m a =
     a\<lparr>state := (state a)\<lparr>conversationHistory := conversationHistory (state a) @ [m]\<rparr>\<rparr>"

text \<open>
  \<open>processMessage(content, userId?)\<close>. An absent or empty \<open>userId\<close> is falsy. The only
  statements that can throw are the two \<open>saveMessage\<close> and \<open>saveState\<close>.
\<close>

definition processMessage :: "string \<Rightarrow> string option \<Rightarrow> agent \<Rightarrow> (js_error + message) \<times> agent" where
  "processMessage content userId a0 =
     (let (startTime, a1) = Date_now a0;
          sanitizedContent = sanitizeInput content;
          truthyId = (case userId of Some u \<Rightarrow> u \<noteq> [] | None \<Rightarrow> False);
          a2 = (if truthyId then a1\<lparr>state := (state a1)\<lparr>userContext_userId := the userId\<rparr>\<rparr> else a1);
          userOrAnonymous = (if truthyId then the userId else ''anonymous'');
          (userMsgId, a3) = generateId a2;
          (userTs, a4) = Date_now a3;
          userMessage = \<lparr>msg_id = userMsgId, msg_role = User, msg_content = sanitizedContent,
                         msg_timestamp = userTs, msg_metadata = None\<rparr>
      in case saveMessage userMessage (push_history userMessage a4) of
           (Inl e, a5) \<Rightarrow> (Inl e, a5)
         | (Inr u, a5) \<Rightarrow>
     (let a6 = storeInMemory sanitizedContent ''conversation'' userMsgId userOrAnonymous ''user'' a5;
          (relevantMemories, a7) = searchMemory sanitizedContent a6;
          context = buildContext a7 sanitizedContent relevantMemories;
          (aiResponse, a8) = generateAIResponse context a7;
          (asstMsgId, a9) = generateId a8;
          (asstTs, a10) = Date_now a9;
          (endTime, a11) = Date_now a10;
          assistantMessage =
            \<lparr>msg_id = asstMsgId, msg_role = Assistant, msg_content = aiResponse,
             msg_timestamp = asstTs,
             msg_metadata = Some \<lparr>responseTime = endTime - startTime, model = LLM_MODEL,
                                  tokensUsed = estimateTokenCount aiResponse\<rparr>\<rparr>
      in case saveMessage assistantMessage (push_history assistantMessage a11) of
           (Inl e, a12) \<Rightarrow> (Inl e, a12)
         | (Inr u, a12) \<Rightarrow>
     (let a13 = storeInMemory aiResponse ''conversation'' asstMsgId userOrAnonymous ''assistant'' a12
      in case saveState a13 of
           (Inl e, a14) \<Rightarrow> (Inl e, a14)
         | (Inr u, a14) \<Rightarrow>
             (let a15 = trimHistory a14;
                  (logTime, a16) = Date_now a15
              in (Inr assistantMessage, a16)))))"

subsection \<open>WebSocket handling\<close>

text \<open>The loop of \<open>streamResponse\<close> over the words: every word but the last gets its
  space back; each token is followed by a pause of 50 ms.\<close>

fun stream_loop :: "string \<Rightarrow> string list \<Rightarrow> agent \<Rightarrow> agent" where
  "stream_loop ws [] a = a"
| "stream_loop ws (w # rest) a =
     (let word = w @ (if rest \<noteq> [] then '' '' else []);
          (t, a1) = Date_now a;
          a2 = sendWebSocketMessage ws (Token word t) a1
      in stream_loop ws rest (sleep 50 a2))"

definition streamResponse :: "string \<Rightarrow> string \<Rightarrow> agent \<Rightarrow> agent" where
  "streamResponse ws content a = stream_loop ws (split CHR '' '' content) a"

text \<open>
  \<open>handleChatMessage(ws, content, userId)\<close>. Its \<open>catch\<close> reads \<open>error.message\<close>, which
  itself throws when the value caught is \<open>undefined\<close>.
\<close>

definition handleChatMessage ::
  "string \<Rightarrow> string \<Rightarrow> string option \<Rightarrow> agent \<Rightarrow> (js_error + unit) \<times> agent" where
  "handleChatMessage ws content userId a =
     (let (t0, a1) = Date_now a;
          a2 = sendWebSocketMessage ws (Typing t0) a1
      in case processMessage content userId a2 of
           (Inr response, a3) \<Rightarrow>
             (let a4 = streamResponse ws (msg_content response) a3;
                  (t, a5) = Date_now a4
              in (Inr (), sendWebSocketMessage ws (MessageComplete (msg_id response) t) a5))
         | (Inl (Error m), a3) \<Rightarrow>
             (let (t, a4) = Date_now a3
              in (Inr (), sendWebSocketMessage ws
                            (ErrorEvent ''Failed to process message'' (Some m) t) a4))
         | (Inl Undefined, a3) \<Rightarrow>
             (Inl (Error ''Cannot read properties of undefined''), a3))"

definition clearHistory :: "agent \<Rightarrow> (js_error + unit) \<times> agent" where
  "clearHistory a =
     (case durable_op (\<lambda>b. b\<lparr>sql_messages := []\<rparr>) a of
        (Inl e, a1) \<Rightarrow> (Inl e, a1)
      | (Inr u, a1) \<Rightarrow> saveState (a1\<lparr>state := (state a1)\<lparr>conversationHistory := []\<rparr>\<rparr>))"

definition handleWebSocketMessage ::
  "string \<Rightarrow> ws_request \<Rightarrow> string \<Rightarrow> agent \<Rightarrow> (js_error + unit) \<times> agent" where
  "handleWebSocketMessage ws req connectionId a =
     (case req of
        MessageRequest content userId \<Rightarrow> handleChatMessage ws content userId a
      | PingRequest \<Rightarrow>
          (let (t, a1) = Date_now a in (Inr (), sendWebSocketMessage ws (Pong t) a1))
      | GetHistoryRequest \<Rightarrow>
          (let (t, a1) = Date_now a
           in (Inr (), sendWebSocketMessage ws (History (conversationHistory (state a1)) t) a1))
      | ClearHistoryRequest \<Rightarrow>
          (case clearHistory a of
             (Inl e, a1) \<Rightarrow> (Inl e, a1)
           | (Inr u, a1) \<Rightarrow>
               (let (t, a2) = Date_now a1
                in (Inr (), sendWebSocketMessage ws (HistoryCleared t) a2)))
      | UnknownRequest ty \<Rightarrow> (Inr (), a)
      | Unparseable e \<Rightarrow> (Inl e, a))"

text \<open>
  \<open>handleWebSocket\<close>: the new connection is entered in \<open>activeConnections\<close> and greeted.
  The model returns the connection id, which names the server socket.
\<close>

definition handleWebSocket :: "agent \<Rightarrow> string \<times> agent" where
  "handleWebSocket a =
     (let (connectionId, a1) = generateId a;
          a2 = a1\<lparr>activeConnections :=
                    (if List.member (activeConnections a1) connectionId then activeConnections a1
                     else activeConnections a1 @ [connectionId])\<rparr>;
          (t, a3) = Date_now a2
      in (connectionId, sendWebSocketMessage connectionId (Connected connectionId t) a3))"

text \<open>The \<open>message\<close> listener of a socket: an error of the handler is reported on that
  socket; when the value caught is \<open>undefined\<close>, reading its \<open>message\<close> throws and
  nothing is sent.\<close>

definition on_message :: "string \<Rightarrow> ws_request \<Rightarrow> agent \<Rightarrow> agent" where
  "on_message connectionId req a =
     (case handleWebSocketMessage connectionId req connectionId a of
        (Inr u, a1) \<Rightarrow> a1
      | (Inl (Error m), a1) \<Rightarrow>
          (let (t, a2) = Date_now a1
           in sendWebSocketMessage connectionId (ErrorEvent m None t) a2)
      | (Inl Undefined, a1) \<Rightarrow> a1)"

text \<open>The \<open>close\<close> and \<open>error\<close> listeners.\<close>

definition on_close :: "string \<Rightarrow> agent \<Rightarrow> agent" where
  "on_close connectionId a =
     a\<lparr>activeConnections := removeAll connectionId (activeConnections a)\<rparr>"

subsection \<open>Workflows\<close>

text \<open>JavaScript truthiness, for \<open>result ? JSON.stringify(result) : null\<close>.\<close>

fun truthy :: "jsval \<Rightarrow> bool" where
  "truthy JUndefined = False"
| "truthy JNull = False"
| "truthy (JBool b) = b"
| "truthy (JNumber n) = (n \<noteq> 0)"
| "truthy (JString s) = (s \<noteq> [])"
| "truthy v = True"

definition triggerWorkflow :: "string \<Rightarrow> jsval \<Rightarrow> agent \<Rightarrow> (js_error + string) \<times> agent" where
  "triggerWorkflow name p a =
     (let (workflowId, a1) = generateId a;
          (t, a2) = Date_now a1
      in case durable_op (\<lambda>b. b\<lparr>sql_workflows := sql_workflows b @
                 [\<lparr>row_id = workflowId, row_name = name, row_status = ''pending'',
                   row_params = p, row_result = None, row_created_at = t,
                   row_completed_at = None\<rparr>]\<rparr>) a2 of
           (Inl e, a3) \<Rightarrow> (Inl e, a3)
         | (Inr u, a3) \<Rightarrow>
             (let a4 = a3\<lparr>state := (state a3)\<lparr>activeWorkflows := activeWorkflows (state a3) @
                          [\<lparr>wf_id = workflowId, wf_name = name, wf_status = ''pending''\<rparr>]\<rparr>\<rparr>
              in case saveState a4 of
                   (Inl e, a5) \<Rightarrow> (Inl e, a5)
                 | (Inr u, a5) \<Rightarrow> (Inr workflowId, a5)))"

text \<open>\<open>activeWorkflows.find((w) => w.id === workflowId)\<close>, then the assignment to the
  workflow found: the first one with this id gets the status.\<close>

fun set_first_status :: "string \<Rightarrow> string \<Rightarrow> workflow list \<Rightarrow> workflow list" where
  "set_first_status workflowId status [] = []"
| "set_first_status workflowId status (w # ws) =
     (if wf_id w = workflowId then w\<lparr>wf_status := status\<rparr> # ws
      else w # set_first_status workflowId status ws)"

text \<open>\<open>UPDATE workflows SET status = ?, result = ?, completed_at = ? WHERE id = ?\<close>.\<close>

definition update_rows :: "string \<Rightarrow> string \<Rightarrow> jsval option \<Rightarrow> int \<Rightarrow> workflow_row list \<Rightarrow> workflow_row list" where
  "update_rows workflowId status res t rows =
     map (\<lambda>r. if row_id r = workflowId
               then r\<lparr>row_status := status, row_result := res, row_completed_at := Some t\<rparr>
               else r) rows"

definition updateWorkflowStatus ::
  "string \<Rightarrow> string \<Rightarrow> jsval option \<Rightarrow> agent \<Rightarrow> (js_error + unit) \<times> agent" where
  "updateWorkflowStatus workflowId status result a =
     (let res = (case result of Some v \<Rightarrow> if truthy v then Some v else None | None \<Rightarrow> None);
          (t, a1) = Date_now a
      in case durable_op (\<lambda>b. b\<lparr>sql_workflows :=
                 update_rows workflowId status res t (sql_workflows b)\<rparr>) a1 of
           (Inl e, a2) \<Rightarrow> (Inl e, a2)
         | (Inr u, a2) \<Rightarrow>
             saveState (a2\<lparr>state := (state a2)\<lparr>activeWorkflows :=
                          set_first_status workflowId status (activeWorkflows (state a2))\<rparr>\<rparr>))"

section \<open>Notions the properties are stated with\<close>

text \<open>The keys a schema declares under \<open>properties\<close>.\<close>

definition declared_keys :: "json_schema \<Rightarrow> string list" where
  "declared_keys schema = (case properties schema of Some props \<Rightarrow> map fst props | None \<Rightarrow> [])"

text \<open>The rate-limit step of \<open>execute\<close> lets this call of the tool through.\<close>

definition rate_limit_admits :: "registry \<Rightarrow> exec_env \<Rightarrow> string \<Rightarrow> tool \<Rightarrow> bool" where
  "rate_limit_admits reg env name t =
     (case rateLimit t of
        Some rl \<Rightarrow> fst (checkRateLimit reg (now_check env) name (calls rl) (period rl))
      | None \<Rightarrow> True)"

text \<open>The sum of the estimated token counts of the segments of a prompt.\<close>

definition total_tokens :: "segment list \<Rightarrow> nat" where
  "total_tokens segs = sum_list (map (\<lambda>s. estimateTokenCount (seg_content s)) segs)"

text \<open>The prompt segment \<open>{role: msg.role, content: msg.content}\<close> of a history message.\<close>

definition segment_of :: "message \<Rightarrow> segment" where
  "segment_of msg = \<lparr>seg_role = msg_role msg, seg_content = msg_content msg\<rparr>"

text \<open>The \<open>content\<close> field of an event, for the events that have one.\<close>

fun event_content :: "ws_event \<Rightarrow> string option" where
  "event_content (Token w t) = Some w"
| "event_content ev = None"

text \<open>The texts of the token events among the events sent to one socket.\<close>

fun token_texts :: "string \<Rightarrow> (string \<times> ws_event) list \<Rightarrow> string list" where
  "token_texts ws [] = []"
| "token_texts ws ((c, Token w t) # evs) =
     (if c = ws then w # token_texts ws evs else token_texts ws evs)"
| "token_texts ws ((c, ev) # evs) = token_texts ws evs"

text \<open>A \<open>message_complete\<close> event.\<close>

fun is_complete :: "ws_event \<Rightarrow> bool" where
  "is_complete (MessageComplete mid t) = True"
| "is_complete ev = False"

text \<open>The events sent between two moments of an agent.\<close>

definition events_since :: "agent \<Rightarrow> agent \<Rightarrow> (string \<times> ws_event) list" where
  "events_since a a' = drop (length (sent a)) (sent a')"

text \<open>An agent on empty storage that has made no call yet, for given answers of the
  outside world.\<close>

definition blank_agent ::
  "(nat \<Rightarrow> int) \<Rightarrow> (nat \<Rightarrow> string) \<Rightarrow> (nat \<Rightarrow> js_error + ai_response) \<Rightarrow>
   (nat \<Rightarrow> js_error + vmatch list) \<Rightarrow> (nat \<Rightarrow> js_error option) \<Rightarrow> agent" where
  "blank_agent clk rnd ai_answers vec_answers durable_answers =
     \<lparr>clock = clk, random = rnd, ai = ai_answers, vectorize = vec_answers,
      durable = durable_answers, clock_reads = 0, random_reads = 0, ai_log = [],
      vec_calls = 0, durable_ops = 0, slept = [], sql_messages = [], sql_workflows = [],
      stored_state = None, vector_index = [], sent = [],
      state = \<lparr>conversationHistory = [], userContext_userId = [], activeWorkflows = [],
               lastActivity = 0\<rparr>,
      activeConnections = []\<rparr>"

text \<open>The outside world answers in \<open>b\<close> as it does in \<open>a\<close>.\<close>

definition world_same :: "agent \<Rightarrow> agent \<Rightarrow> bool" where
  "world_same a b \<longleftrightarrow>
     clock b = clock a \<and> random b = random a \<and> ai b = ai a \<and> vectorize b = vectorize a \<and>
     durable b = durable a"

text \<open>From \<open>a\<close> to \<open>b\<close> the agent has sent nothing and kept its connections; the world is
  the same and the counters of clock readings, random numbers and durable operations have
  not gone back.\<close>

definition quiet_step :: "agent \<Rightarrow> agent \<Rightarrow> bool" where
  "quiet_step a b \<longleftrightarrow>
     world_same a b \<and> clock_reads a \<le> clock_reads b \<and> random_reads a \<le> random_reads b \<and>
     durable_ops a \<le> durable_ops b \<and>
     sent b = sent a \<and> activeConnections b = activeConnections a"

text \<open>A chat request, as opposed to an embedding request.\<close>

fun is_chat :: "ai_request \<Rightarrow> bool" where
  "is_chat (ChatRequest m msgs) = True"
| "is_chat (EmbedRequest m t) = False"

text \<open>The model a request names.\<close>

fun request_model :: "ai_request \<Rightarrow> string" where
  "request_model (ChatRequest m msgs) = m"
| "request_model (EmbedRequest m t) = m"

section \<open>Example inputs\<close>

text \<open>A tool limited to two calls per 60 seconds, with one required string parameter; its
  body answers with the parameter \<open>extra\<close> it was given.\<close>

definition example_tool :: tool where
  "example_tool =
     \<lparr>tool_name = ''echo'', description = ''Echo a value'',
      parameters =
        \<lparr>schema_type = ''object'',
         properties = Some [(''input'',
           \<lparr>prop_type = Some ''string'', minLength = Some 1, maxLength = None,
            minimum = None, maximum = None, enum = None\<rparr>)],
         required = Some [''input'']\<rparr>,
      tool_execute = (\<lambda>p c. Returns \<lparr>success = True, data = p ''extra'', error = None,
                                        executionTime = None, result_metadata = None\<rparr>),
      rateLimit = Some \<lparr>calls = 2, period = 60\<rparr>\<rparr>"

definition example_registry :: registry where
  "example_registry = new_registry\<lparr>tools := [''echo'' \<mapsto> example_tool]\<rparr>"

definition example_params :: params where
  "example_params = [''input'' \<mapsto> JString ''hello'']"

definition example_context :: tool_context where
  "example_context = \<lparr>ctx_userId = None, ctx_agentId = ''agent-1'',
                       ctx_conversationId = None, ctx_timestamp = 1000\<rparr>"

text \<open>The environment of a call in which every clock reading is \<open>t\<close>.\<close>

definition env_at :: "int \<Rightarrow> exec_env" where
  "env_at t = \<lparr>now_check = t, now_start = t, now_end = t, uuid = ''0000''\<rparr>"

text \<open>An agent on empty storage whose collaborators all answer: the clock advances by one
  millisecond per reading, the model answers \<open>Hello there\<close>, the index has no matches.\<close>

definition example_agent :: agent where
  "example_agent =
     blank_agent (\<lambda>k. 1000 + int k) (\<lambda>k. ''abc'')
       (\<lambda>k. Inr (Some ''Hello there'', Some [1])) (\<lambda>k. Inr []) (\<lambda>k. None)"

text \<open>A retrieved memory of 20000 characters.\<close>

definition big_memory :: memory where
  "big_memory =
     \<lparr>mem_id = ''m1'', mem_type = ''conversation'', mem_content = replicate 20000 CHR ''a'',
      mem_embedding = [], mem_timestamp = 0, mem_userId = ''anonymous'', mem_importance = 1,
      mem_tags = []\<rparr>"

text \<open>The example agent after a workflow has been triggered, then reported completed, then
  reported pending again.\<close>

definition agent_triggered :: agent where
  "agent_triggered = snd (triggerWorkflow ''job'' JNull example_agent)"

definition agent_completed :: agent where
  "agent_completed = snd (updateWorkflowStatus ''1000-abc'' ''completed'' None agent_triggered)"

definition agent_reopened :: agent where
  "agent_reopened = snd (updateWorkflowStatus ''1000-abc'' ''pending'' None agent_completed)"

text \<open>An agent whose clock stands still, with random suffixes that differ so that the ids of
  its messages do; and one whose model always fails.\<close>

definition frozen_agent :: agent where
  "frozen_agent =
     blank_agent (\<lambda>k. 1000) (\<lambda>k. if k = 0 then ''abc'' else ''xyz'')
       (\<lambda>k. Inr (Some ''Hello there'', Some [1])) (\<lambda>k. Inr []) (\<lambda>k. None)"

definition down_agent :: agent where
  "down_agent =
     blank_agent (\<lambda>k. 1000 + int k) (\<lambda>k. ''abc'')
       (\<lambda>k. Inl (Error ''AI unavailable'')) (\<lambda>k. Inr []) (\<lambda>k. None)"

text \<open>One turn of each.\<close>

definition frozen_turn :: "(js_error + message) \<times> agent" where
  "frozen_turn = processMessage ''Hi'' None frozen_agent"

definition down_turn :: "(js_error + message) \<times> agent" where
  "down_turn = processMessage ''Hi'' None down_agent"

text \<open>A turn of the example agent on an input that is empty once sanitized.\<close>

definition blank_turn :: "(js_error + message) \<times> agent" where
  "blank_turn = processMessage '' <> '' None example_agent"

text \<open>A chat turn of the example agent on a socket \<open>c1\<close>.\<close>

definition chat_turn :: "(js_error + unit) \<times> agent" where
  "chat_turn = handleChatMessage ''c1'' ''Hi'' None example_agent"

text \<open>The example agent with two connections attached, and that agent after the first
  connection has sent it a chat message.\<close>

definition agent_two :: agent where
  "agent_two = snd (handleWebSocket (snd (handleWebSocket example_agent)))"

definition two_turn :: agent where
  "two_turn = on_message ''1000-abc'' (MessageRequest ''Hi'' None) agent_two"

text \<open>The example agent with a history of three messages: an old one of 20000 characters
  and two short recent ones.\<close>

definition history_agent :: agent where
  "history_agent =
     example_agent\<lparr>state := (state example_agent)\<lparr>conversationHistory :=
       [\<lparr>msg_id = ''1-aaa'', msg_role = User, msg_content = replicate 20000 CHR ''a'',
         msg_timestamp = 1, msg_metadata = None\<rparr>,
        \<lparr>msg_id = ''2-bbb'', msg_role = Assistant, msg_content = ''Noted'',
         msg_timestamp = 2, msg_metadata = None\<rparr>,
        \<lparr>msg_id = ''3-ccc'', msg_role = User, msg_content = ''Thanks'',
         msg_timestamp = 3, msg_metadata = None\<rparr>]\<rparr>\<rparr>"

section \<open>Properties of the tool registry\<close>

lemma js_in_map_add: "js_in k p \<Longrightarrow> js_in k (p ++ extra)"
  by (auto simp: js_in_def map_add_def split: option.splits)

lemma validate_required_extend:
  "validate_required rs p = None \<Longrightarrow> validate_required rs (p ++ extra) = None"
  by (induction rs) (auto simp: js_in_map_add split: if_splits)

lemma map_add_undeclared: "k \<notin> dom extra \<Longrightarrow> (p ++ extra) k = p k"
  by (simp add: map_add_dom_app_simps)

lemma js_in_undeclared: "k \<notin> dom extra \<Longrightarrow> js_in k (p ++ extra) = js_in k p"
  by (simp add: js_in_def map_add_undeclared)

lemma js_get_undeclared: "k \<notin> dom extra \<Longrightarrow> js_get (p ++ extra) k = js_get p k"
  by (simp add: js_get_def map_add_undeclared)

lemma validate_properties_extend:
  "dom extra \<inter> fst ` set props = {} \<Longrightarrow>
   validate_properties props (p ++ extra) = validate_properties props p"
proof (induction props)
  case Nil
  then show ?case by simp
next
  case (Cons kp props)
  obtain k0 ps where kp: "kp = (k0, ps)" by (cases kp)
  from Cons.prems kp have k: "k0 \<notin> dom extra" by auto
  from Cons.prems have "dom extra \<inter> fst ` set props = {}" by auto
  with Cons.IH have "validate_properties props (p ++ extra) = validate_properties props p" .
  with k kp show ?case by (simp add: js_in_undeclared js_get_undeclared split: option.splits)
qed

lemma validateParameters_extend:
  assumes "validateParameters p schema = None"
      and "dom extra \<inter> set (declared_keys schema) = {}"
    shows "validateParameters (p ++ extra) schema = None"
  using assms
  by (auto simp: validateParameters_def declared_keys_def validate_required_extend
        validate_properties_extend split: option.splits if_splits)

lemma execute_body_returns:
  assumes "tools reg name = Some t"
      and "rate_limit_admits reg env name t"
      and "validateParameters p (parameters t) = None"
      and "tool_execute t p ctx = Returns r"
    shows "fst (execute reg env name p ctx) =
             Inr (r\<lparr>executionTime := Some (now_end env - now_start env)\<rparr>)"
      and "\<exists>reg1. snd (execute reg env name p ctx) = logExecution reg1
             \<lparr>log_id = uuid env, log_toolName = name, log_agentId = ctx_agentId ctx,
              log_userId = ctx_userId ctx, log_parameters = p, log_result = r,
              log_timestamp = ctx_timestamp ctx, log_duration = now_end env - now_start env\<rparr>
            \<and> executionLogs reg1 = executionLogs reg \<and> tools reg1 = tools reg"
  using assms
  by (auto simp: execute_def rate_limit_admits_def Let_def checkRateLimit_def split: option.splits prod.splits if_splits)

text \<open>
  C10. Parameter validation ignores undeclared parameters. When a parameter object passes
  the validation of a tool's schema, adding any keys the schema's \<open>properties\<close> do not
  list leaves it valid; and when the call is let through by the rate limit, the tool body
  is applied to the extended object itself: its result is what \<open>execute\<close> returns (with
  the execution time added) and the extended object is what the log entry records.
\<close>

theorem validateParameters_ignores_undeclared:
  assumes "validateParameters p (parameters t) = None"
      and "dom extra \<inter> set (declared_keys (parameters t)) = {}"
      and "tools reg name = Some t"
      and "rate_limit_admits reg env name t"
    shows "validateParameters (p ++ extra) (parameters t) = None \<and>
           (\<forall>r. tool_execute t (p ++ extra) ctx = Returns r \<longrightarrow>
              fst (execute reg env name (p ++ extra) ctx) =
                Inr (r\<lparr>executionTime := Some (now_end env - now_start env)\<rparr>) \<and>
              log_parameters (last (executionLogs (snd (execute reg env name (p ++ extra) ctx))))
                = p ++ extra)"
proof -
  have v: "validateParameters (p ++ extra) (parameters t) = None"
    using assms(1,2) by (rule validateParameters_extend)
  have "fst (execute reg env name (p ++ extra) ctx) =
          Inr (r\<lparr>executionTime := Some (now_end env - now_start env)\<rparr>) \<and>
        log_parameters (last (executionLogs (snd (execute reg env name (p ++ extra) ctx))))
          = p ++ extra"
    if r: "tool_execute t (p ++ extra) ctx = Returns r" for r
  proof -
    from execute_body_returns(2) [OF assms(3,4) v r] obtain reg1 where
      s: "snd (execute reg env name (p ++ extra) ctx) = logExecution reg1
             \<lparr>log_id = uuid env, log_toolName = name, log_agentId = ctx_agentId ctx,
              log_userId = ctx_userId ctx, log_parameters = p ++ extra, log_result = r,
              log_timestamp = ctx_timestamp ctx, log_duration = now_end env - now_start env\<rparr>"
      by blast
    have "log_parameters (last (executionLogs (snd (execute reg env name (p ++ extra) ctx))))
          = p ++ extra"
      unfolding s by (cases "executionLogs reg1") (simp_all add: logExecution_def Let_def last_tl)
    with execute_body_returns(1) [OF assms(3,4) v r] show ?thesis by simp
  qed
  with v show ?thesis by blast
qed

lemma example_valid: "validateParameters example_params (parameters example_tool) = None"
  by (simp add: validateParameters_def example_params_def example_tool_def js_in_def js_get_def
        validate_property_def actualType_def)

lemma example_admits: "rate_limit_admits example_registry (env_at t0) ''echo'' example_tool"
  by (simp add: rate_limit_admits_def example_tool_def example_registry_def new_registry_def
        checkRateLimit_def)

text \<open>
  C10, at a concrete input: the parameter \<open>extra\<close>, which the schema of the example tool
  does not declare, reaches the tool body and comes back as the result's data.
\<close>

theorem validateParameters_ignores_undeclared_witness:
  "validateParameters example_params (parameters example_tool) = None \<and>
   dom [''extra'' \<mapsto> JString ''kept''] \<inter> set (declared_keys (parameters example_tool)) = {} \<and>
   tools example_registry ''echo'' = Some example_tool \<and>
   rate_limit_admits example_registry (env_at 5) ''echo'' example_tool \<and>
   validateParameters (example_params ++ [''extra'' \<mapsto> JString ''kept''])
     (parameters example_tool) = None \<and>
   fst (execute example_registry (env_at 5) ''echo''
          (example_params ++ [''extra'' \<mapsto> JString ''kept'']) example_context)
     = Inr \<lparr>success = True, data = Some (JString ''kept''), error = None,
            executionTime = Some 0, result_metadata = None\<rparr>"
proof -
  have d: "dom [''extra'' \<mapsto> JString ''kept''] \<inter> set (declared_keys (parameters example_tool)) = {}"
    by (simp add: declared_keys_def example_tool_def)
  have r: "tools example_registry ''echo'' = Some example_tool"
    by (simp add: example_registry_def)
  have b: "tool_execute example_tool (example_params ++ [''extra'' \<mapsto> JString ''kept'']) example_context
        = Returns \<lparr>success = True, data = Some (JString ''kept''), error = None, executionTime = None, result_metadata = None\<rparr>"
    by (simp add: example_tool_def)
  from validateParameters_ignores_undeclared [OF example_valid d r example_admits, of example_context] b
  show ?thesis using example_valid d r example_admits by (simp add: env_at_def)
qed

lemma execute_rate_limited:
  assumes "tools reg name = Some t"
      and "\<not> rate_limit_admits reg env name t"
    shows "execute reg env name p ctx =
             (Inr \<lparr>success = False, data = None, error = Some (RateLimitExceeded name),
                   executionTime = None, result_metadata = None\<rparr>, reg)"
  using assms
  by (auto simp: execute_def rate_limit_admits_def Let_def checkRateLimit_def
        split: option.splits prod.splits if_splits)

lemma execute_unknown:
  "tools reg name = None \<Longrightarrow>
     execute reg env name p ctx =
       (Inr \<lparr>success = False, data = None, error = Some (ToolNotFound name),
             executionTime = None, result_metadata = None\<rparr>, reg)"
  by (simp add: execute_def)

lemma execute_invalid:
  assumes "tools reg name = Some t"
      and "rate_limit_admits reg env name t"
      and "validateParameters p (parameters t) = Some e"
    shows "fst (execute reg env name p ctx) =
             Inr \<lparr>success = False, data = None, error = Some (ParameterValidationFailed e),
                  executionTime = None, result_metadata = None\<rparr>"
      and "executionLogs (snd (execute reg env name p ctx)) = executionLogs reg"
  using assms
  by (auto simp: execute_def rate_limit_admits_def Let_def checkRateLimit_def
        split: option.splits prod.splits if_splits)

lemma execute_tools: "tools (snd (execute reg env name p ctx)) = tools reg"
  by (auto simp: execute_def Let_def checkRateLimit_def logExecution_def
        split: option.splits prod.splits if_splits tool_outcome.splits)

lemma execute_tracker_admitted:
  assumes "tools reg name = Some t" and "rateLimit t = Some rl"
    shows "rateLimitTracker (snd (execute reg env name p ctx)) =
           rateLimitTracker (snd (checkRateLimit reg (now_check env) name (calls rl) (period rl)))"
  using assms
  by (auto simp: execute_def Let_def checkRateLimit_def logExecution_def
        split: option.splits prod.splits if_splits tool_outcome.splits)

lemma logExecution_length:
  "length (executionLogs reg) \<le> 1000 \<Longrightarrow> length (executionLogs (logExecution reg e)) \<le> 1000"
  by (simp add: logExecution_def Let_def)

lemma logExecution_logs:
  "length (executionLogs reg) \<le> 1000 \<Longrightarrow>
   executionLogs (logExecution reg e) =
     (if length (executionLogs reg) = 1000 then tl (executionLogs reg) else executionLogs reg) @ [e]"
  by (cases "executionLogs reg") (auto simp: logExecution_def Let_def)

lemma execute_logs_cases:
  "executionLogs (snd (execute reg env name p ctx)) = executionLogs reg \<or>
   (\<exists>e. executionLogs (snd (execute reg env name p ctx)) =
           executionLogs (logExecution (reg\<lparr>executionLogs := executionLogs reg\<rparr>) e))"
  by (auto simp: execute_def Let_def checkRateLimit_def logExecution_def
        split: option.splits prod.splits if_splits tool_outcome.splits)

text \<open>
  C6, as the code has it. Starting from a log of at most 1000 entries, the log holds at most
  1000 entries after a call of \<open>execute\<close>. A call whose tool body returns a result
  appends exactly one entry, at the end, and when the log was full the oldest entry is
  dropped. A call turned down before the body runs (unknown tool, rate limit exceeded,
  parameter validation failure) leaves the log as it was.
\<close>

theorem execute_log_entries:
  assumes "length (executionLogs reg) \<le> 1000"
  shows "length (executionLogs (snd (execute reg env name p ctx))) \<le> 1000 \<and>
         (\<forall>t r. tools reg name = Some t \<and> rate_limit_admits reg env name t \<and>
                validateParameters p (parameters t) = None \<and> tool_execute t p ctx = Returns r \<longrightarrow>
            (\<exists>e. executionLogs (snd (execute reg env name p ctx)) =
                    (if length (executionLogs reg) = 1000 then tl (executionLogs reg)
                     else executionLogs reg) @ [e] \<and>
                  log_toolName e = name \<and> log_parameters e = p \<and> log_result e = r)) \<and>
         ((tools reg name = None \<or>
           (\<exists>t. tools reg name = Some t \<and>
                (\<not> rate_limit_admits reg env name t \<or> validateParameters p (parameters t) \<noteq> None)))
            \<longrightarrow> executionLogs (snd (execute reg env name p ctx)) = executionLogs reg)"
proof (intro conjI allI impI)
  show "length (executionLogs (snd (execute reg env name p ctx))) \<le> 1000"
    using execute_logs_cases [of reg env name p ctx] assms
    by (auto simp: logExecution_def Let_def)
next
  fix t r
  assume h: "tools reg name = Some t \<and> rate_limit_admits reg env name t \<and>
             validateParameters p (parameters t) = None \<and> tool_execute t p ctx = Returns r"
  then obtain reg1 where
    s: "snd (execute reg env name p ctx) = logExecution reg1
          \<lparr>log_id = uuid env, log_toolName = name, log_agentId = ctx_agentId ctx,
           log_userId = ctx_userId ctx, log_parameters = p, log_result = r,
           log_timestamp = ctx_timestamp ctx, log_duration = now_end env - now_start env\<rparr>"
    and l: "executionLogs reg1 = executionLogs reg"
    using execute_body_returns(2) [of reg name t env p ctx r] by blast
  from assms l have "length (executionLogs reg1) \<le> 1000" by simp
  from logExecution_logs [OF this] s l
  show "\<exists>e. executionLogs (snd (execute reg env name p ctx)) =
              (if length (executionLogs reg) = 1000 then tl (executionLogs reg)
               else executionLogs reg) @ [e] \<and>
            log_toolName e = name \<and> log_parameters e = p \<and> log_result e = r"
    by force
next
  assume "tools reg name = None \<or>
          (\<exists>t. tools reg name = Some t \<and>
               (\<not> rate_limit_admits reg env name t \<or> validateParameters p (parameters t) \<noteq> None))"
  then consider "tools reg name = None"
    | t where "tools reg name = Some t" "\<not> rate_limit_admits reg env name t"
    | t e where "tools reg name = Some t" "rate_limit_admits reg env name t"
        "validateParameters p (parameters t) = Some e"
    by auto
  then show "executionLogs (snd (execute reg env name p ctx)) = executionLogs reg"
  proof cases
    case 1
    then show ?thesis by (simp add: execute_unknown)
  next
    case 2
    then show ?thesis by (simp add: execute_rate_limited)
  next
    case 3
    then show ?thesis by (simp add: execute_invalid(2))
  qed
qed

lemma example_body:
  "tool_execute example_tool example_params example_context =
     Returns \<lparr>success = True, data = None, error = None, executionTime = None, result_metadata = None\<rparr>"
  by (simp add: example_tool_def example_params_def)

text \<open>
  C6, at concrete inputs: one admitted call of the example tool on the empty log leaves one
  entry; a call of an unknown tool leaves none.
\<close>

theorem execute_log_entries_witness:
  "length (executionLogs example_registry) \<le> 1000 \<and>
   (\<exists>e. executionLogs (snd (execute example_registry (env_at 5) ''echo'' example_params example_context))
           = [e] \<and> log_toolName e = ''echo'') \<and>
   executionLogs (snd (execute example_registry (env_at 5) ''missing'' example_params example_context))
     = []"
proof -
  have l: "length (executionLogs example_registry) \<le> 1000"
    by (simp add: example_registry_def new_registry_def)
  have e: "executionLogs example_registry = []"
    by (simp add: example_registry_def new_registry_def)
  have r: "tools example_registry ''echo'' = Some example_tool"
    by (simp add: example_registry_def)
  have m: "tools example_registry ''missing'' = None"
    by (simp add: example_registry_def new_registry_def)
  from execute_log_entries [OF l, of "env_at 5" "''echo''" example_params example_context]
       r example_admits [of 5] example_valid example_body
  have "\<exists>e. executionLogs (snd (execute example_registry (env_at 5) ''echo'' example_params example_context))
           = (if length (executionLogs example_registry) = 1000 then tl (executionLogs example_registry)
              else executionLogs example_registry) @ [e] \<and>
             log_toolName e = ''echo'' \<and> log_parameters e = example_params \<and>
             log_result e = \<lparr>success = True, data = None, error = None, executionTime = None, result_metadata = None\<rparr>"
    by blast
  moreover
  from execute_log_entries [OF l, of "env_at 5" "''missing''" example_params example_context] m
  have "executionLogs (snd (execute example_registry (env_at 5) ''missing'' example_params example_context))
          = executionLogs example_registry"
    by blast
  ultimately show ?thesis using l e by auto
qed

text \<open>
  C6 as stated fails: a call of an unknown tool does not append an entry.
\<close>

theorem execute_log_counterexample:
  "length (executionLogs (snd (execute example_registry (env_at 5) ''missing'' example_params
      example_context)))
   \<noteq> length (executionLogs example_registry) + 1"
  by (simp add: execute_def example_registry_def new_registry_def)

lemma checkRateLimit_tools: "tools (snd (checkRateLimit reg now name m per)) = tools reg"
  by (auto simp: checkRateLimit_def Let_def split: option.splits)

text \<open>
  C8. A tool limited to 2 calls per 60 seconds, at the start of a new window (no tracker
  yet, or the old window over): two calls within the window succeed when their parameters
  are valid and the body succeeds, a third call within the window returns, as a result, the
  failure that carries the rate-limit error, and a call after the reset time succeeds again
  and leaves the counter at 1 with a new reset time.
\<close>

theorem rate_limit_window:
  assumes t: "tools reg name = Some t"
      and rl: "rateLimit t = Some \<lparr>calls = 2, period = 60\<rparr>"
      and fresh: "case rateLimitTracker reg name of None \<Rightarrow> True
                  | Some tr \<Rightarrow> now_check e1 > resetTime tr"
      and v1: "validateParameters p1 (parameters t) = None"
      and v2: "validateParameters p2 (parameters t) = None"
      and v4: "validateParameters p4 (parameters t) = None"
      and b1: "tool_execute t p1 c1 = Returns r1" "success r1"
      and b2: "tool_execute t p2 c2 = Returns r2" "success r2"
      and b4: "tool_execute t p4 c4 = Returns r4" "success r4"
      and w2: "now_check e2 \<le> now_check e1 + 60000"
      and w3: "now_check e3 \<le> now_check e1 + 60000"
      and w4: "now_check e4 > now_check e1 + 60000"
  shows "(let (res1, reg1) = execute reg e1 name p1 c1;
              (res2, reg2) = execute reg1 e2 name p2 c2;
              (res3, reg3) = execute reg2 e3 name p3 c3;
              (res4, reg4) = execute reg3 e4 name p4 c4
          in res1 = Inr (r1\<lparr>executionTime := Some (now_end e1 - now_start e1)\<rparr>) \<and>
             success (projr res1) \<and>
             res2 = Inr (r2\<lparr>executionTime := Some (now_end e2 - now_start e2)\<rparr>) \<and>
             success (projr res2) \<and>
             res3 = Inr \<lparr>success = False, data = None,
                          error = Some (RateLimitExceeded name),
                          executionTime = None, result_metadata = None\<rparr> \<and>
             \<not> success (projr res3) \<and>
             error (projr res3) = Some (RateLimitExceeded name) \<and>
             res4 = Inr (r4\<lparr>executionTime := Some (now_end e4 - now_start e4)\<rparr>) \<and>
             success (projr res4) \<and>
             rateLimitTracker reg4 name =
               Some \<lparr>tracker_calls = 1, resetTime = now_check e4 + 60000\<rparr>)"
proof -
  obtain res1 reg1 where x1: "execute reg e1 name p1 c1 = (res1, reg1)" by (cases "execute reg e1 name p1 c1")
  obtain res2 reg2 where x2: "execute reg1 e2 name p2 c2 = (res2, reg2)" by (cases "execute reg1 e2 name p2 c2")
  obtain res3 reg3 where x3: "execute reg2 e3 name p3 c3 = (res3, reg3)" by (cases "execute reg2 e3 name p3 c3")
  obtain res4 reg4 where x4: "execute reg3 e4 name p4 c4 = (res4, reg4)" by (cases "execute reg3 e4 name p4 c4")
  \<comment> \<open>first call: a new window\<close>
  have a1: "rate_limit_admits reg e1 name t"
    using rl fresh by (auto simp: rate_limit_admits_def checkRateLimit_def Let_def split: option.splits)
  have s1: "res1 = Inr (r1\<lparr>executionTime := Some (now_end e1 - now_start e1)\<rparr>)"
    using execute_body_returns(1) [OF t a1 v1 b1(1)] x1 by simp
  have t1: "tools reg1 name = Some t"
    using execute_tools [of reg e1 name p1 c1] x1 t by simp
  have k1: "rateLimitTracker reg1 name = Some \<lparr>tracker_calls = 1, resetTime = now_check e1 + 60000\<rparr>"
    using execute_tracker_admitted [OF t rl, of e1 p1 c1] x1 fresh
    by (auto simp: checkRateLimit_def Let_def split: option.splits)
  \<comment> \<open>second call: counted\<close>
  have a2: "rate_limit_admits reg1 e2 name t"
    using rl k1 w2 by (simp add: rate_limit_admits_def checkRateLimit_def Let_def)
  have s2: "res2 = Inr (r2\<lparr>executionTime := Some (now_end e2 - now_start e2)\<rparr>)"
    using execute_body_returns(1) [OF t1 a2 v2 b2(1)] x2 by simp
  have t2: "tools reg2 name = Some t"
    using execute_tools [of reg1 e2 name p2 c2] x2 t1 by simp
  have k2: "rateLimitTracker reg2 name = Some \<lparr>tracker_calls = 2, resetTime = now_check e1 + 60000\<rparr>"
    using execute_tracker_admitted [OF t1 rl, of e2 p2 c2] x2 k1 w2
    by (simp add: checkRateLimit_def Let_def)
  \<comment> \<open>third call: rejected\<close>
  have a3: "\<not> rate_limit_admits reg2 e3 name t"
    using rl k2 w3 by (simp add: rate_limit_admits_def checkRateLimit_def Let_def)
  have s3: "res3 = Inr \<lparr>success = False, data = None, error = Some (RateLimitExceeded name),
                        executionTime = None, result_metadata = None\<rparr>"
    and r3: "reg3 = reg2"
    using execute_rate_limited [OF t2 a3, of p3 c3] x3 by simp_all
  \<comment> \<open>fourth call, after the reset time: a new window\<close>
  have t3: "tools reg3 name = Some t" and k3: "rateLimitTracker reg3 name =
      Some \<lparr>tracker_calls = 2, resetTime = now_check e1 + 60000\<rparr>"
    using r3 t2 k2 by simp_all
  have a4: "rate_limit_admits reg3 e4 name t"
    using rl k3 w4 by (simp add: rate_limit_admits_def checkRateLimit_def Let_def)
  have s4: "res4 = Inr (r4\<lparr>executionTime := Some (now_end e4 - now_start e4)\<rparr>)"
    using execute_body_returns(1) [OF t3 a4 v4 b4(1)] x4 by simp
  have k4: "rateLimitTracker reg4 name = Some \<lparr>tracker_calls = 1, resetTime = now_check e4 + 60000\<rparr>"
    using execute_tracker_admitted [OF t3 rl, of e4 p4 c4] x4 k3 w4
    by (simp add: checkRateLimit_def Let_def)
  show ?thesis
    using s1 s2 s3 s4 k4 b1(2) b2(2) b4(2) by (simp add: x1 x2 x3 x4)
qed

text \<open>
  C8, at concrete times: calls at 0 ms, 1000 ms, 60000 ms (the last moment of the window)
  and 60001 ms.
\<close>

theorem rate_limit_window_witness:
  "(let (res1, reg1) = execute example_registry (env_at 0) ''echo'' example_params example_context;
        (res2, reg2) = execute reg1 (env_at 1000) ''echo'' example_params example_context;
        (res3, reg3) = execute reg2 (env_at 60000) ''echo'' example_params example_context;
        (res4, reg4) = execute reg3 (env_at 60001) ''echo'' example_params example_context
    in success (projr res1) \<and> success (projr res2) \<and>
       res3 = Inr \<lparr>success = False, data = None,
                    error = Some (RateLimitExceeded ''echo''),
                    executionTime = None, result_metadata = None\<rparr> \<and>
       error (projr res3) = Some (RateLimitExceeded ''echo'') \<and>
       success (projr res4) \<and>
       rateLimitTracker reg4 ''echo'' = Some \<lparr>tracker_calls = 1, resetTime = 120001\<rparr>)"
proof -
  have t: "tools example_registry ''echo'' = Some example_tool"
    by (simp add: example_registry_def)
  have rl: "rateLimit example_tool = Some \<lparr>calls = 2, period = 60\<rparr>"
    by (simp add: example_tool_def)
  have fresh: "case rateLimitTracker example_registry ''echo'' of None \<Rightarrow> True
               | Some tr \<Rightarrow> now_check (env_at 0) > resetTime tr"
    by (simp add: example_registry_def new_registry_def)
  have s: "success \<lparr>success = True, data = None, error = None, executionTime = None,
                     result_metadata = None\<rparr>" by simp
  have w2: "now_check (env_at 1000) \<le> now_check (env_at 0) + 60000"
   and w3: "now_check (env_at 60000) \<le> now_check (env_at 0) + 60000"
   and w4: "now_check (env_at 60001) > now_check (env_at 0) + 60000"
    by (simp_all add: env_at_def)
  from rate_limit_window [OF t rl fresh example_valid example_valid example_valid
      example_body s example_body s example_body s w2 w3 w4,
      of example_params example_context]
  show ?thesis by (simp add: env_at_def split: prod.splits)
qed

section \<open>Properties of the context builder\<close>

lemma estimateTokenCount_eq: "estimateTokenCount s = (length s + 3) div 4"
proof -
  have "real (length s) / 4 = real_of_int (int (length s)) / real_of_int 4" by simp
  then have "\<lceil>real (length s) / 4\<rceil> = - (- int (length s) div 4)"
    by (simp only: ceiling_divide_eq_div)
  also have "\<dots> = int ((length s + 3) div 4)" by linarith
  finally show ?thesis by (simp add: estimateTokenCount_def)
qed

lemma length_system_prompt: "length system_prompt = 162"
  by (simp add: system_prompt_def)

lemma history_loop_budget:
  "\<exists>sel. history_loop hs tc msgs = sel @ msgs \<and>
         tc + total_tokens sel \<le> max MAX_CONTEXT_TOKENS tc"
proof (induction hs arbitrary: tc msgs)
  case Nil
  show ?case by (simp add: total_tokens_def)
next
  case (Cons h hs)
  show ?case
  proof (cases "tc + estimateTokenCount (msg_content h) > MAX_CONTEXT_TOKENS")
    case True
    then show ?thesis by (simp add: total_tokens_def Let_def)
  next
    case False
    let ?seg = "\<lparr>seg_role = msg_role h, seg_content = msg_content h\<rparr>"
    from Cons.IH [of "tc + estimateTokenCount (msg_content h)" "?seg # msgs"]
    obtain sel where s: "history_loop hs (tc + estimateTokenCount (msg_content h)) (?seg # msgs)
          = sel @ ?seg # msgs"
      and b: "tc + estimateTokenCount (msg_content h) + total_tokens sel
            \<le> max MAX_CONTEXT_TOKENS (tc + estimateTokenCount (msg_content h))"
      by blast
    have "history_loop (h # hs) tc msgs = (sel @ [?seg]) @ msgs"
      using False s by (simp add: Let_def)
    moreover have "tc + total_tokens (sel @ [?seg]) \<le> max MAX_CONTEXT_TOKENS tc"
      using False b by (simp add: total_tokens_def)
    ultimately show ?thesis by blast
  qed
qed

lemma system_segments_tokens:
  "total_tokens (system_segments mems)
     \<le> estimateTokenCount (join '' '' (map seg_content (system_segments mems))) + 1"
proof -
  have "40 + (45 + L) div 4 \<le> (208 + L) div 4" for L :: nat by arith
  then show ?thesis
    by (simp add: system_segments_def total_tokens_def estimateTokenCount_eq Let_def
          length_system_prompt)
qed

lemma system_segments_tokens_Nil:
  "total_tokens (system_segments []) = estimateTokenCount (join '' '' (map seg_content (system_segments [])))"
  by (simp add: system_segments_def total_tokens_def)

lemma total_tokens_append: "total_tokens (xs @ ys) = total_tokens xs + total_tokens ys"
  by (simp add: total_tokens_def)

lemma total_tokens_rev: "total_tokens (rev xs) = total_tokens xs"
  by (induction xs) (simp_all add: total_tokens_def)

text \<open>The loop takes the first \<open>j\<close> messages of the list it walks, and stops at the first one
  that would go over the limit.\<close>

lemma history_loop_selects:
  "\<exists>j\<le>length hs.
      history_loop hs tc msgs = map segment_of (rev (take j hs)) @ msgs \<and>
      (0 < j \<longrightarrow> tc + total_tokens (map segment_of (take j hs)) \<le> MAX_CONTEXT_TOKENS) \<and>
      (j < length hs \<longrightarrow>
         tc + total_tokens (map segment_of (take j hs)) + estimateTokenCount (msg_content (hs ! j))
           > MAX_CONTEXT_TOKENS)"
proof (induction hs arbitrary: tc msgs)
  case Nil
  show ?case by simp
next
  case (Cons h hs)
  show ?case
  proof (cases "tc + estimateTokenCount (msg_content h) > MAX_CONTEXT_TOKENS")
    case True
    then have "history_loop (h # hs) tc msgs = map segment_of (rev (take 0 (h # hs))) @ msgs \<and>
      (0 < (0::nat) \<longrightarrow> tc + total_tokens (map segment_of (take 0 (h # hs))) \<le> MAX_CONTEXT_TOKENS) \<and>
      (0 < length (h # hs) \<longrightarrow>
         tc + total_tokens (map segment_of (take 0 (h # hs)))
            + estimateTokenCount (msg_content ((h # hs) ! 0)) > MAX_CONTEXT_TOKENS)"
      by (simp add: Let_def total_tokens_def)
    then show ?thesis by blast
  next
    case False
    define tc' where "tc' = tc + estimateTokenCount (msg_content h)"
    from Cons.IH [of tc' "segment_of h # msgs"] obtain j where
      j: "j \<le> length hs"
        "history_loop hs tc' (segment_of h # msgs) = map segment_of (rev (take j hs)) @ segment_of h # msgs"
        "0 < j \<longrightarrow> tc' + total_tokens (map segment_of (take j hs)) \<le> MAX_CONTEXT_TOKENS"
        "j < length hs \<longrightarrow>
           tc' + total_tokens (map segment_of (take j hs)) + estimateTokenCount (msg_content (hs ! j))
             > MAX_CONTEXT_TOKENS"
      by blast
    have t: "tc + total_tokens (map segment_of (take (Suc j) (h # hs)))
               = tc' + total_tokens (map segment_of (take j hs))"
      by (simp add: tc'_def total_tokens_def segment_of_def)
    have 1: "history_loop (h # hs) tc msgs = map segment_of (rev (take (Suc j) (h # hs))) @ msgs"
      using False j(2) by (simp add: Let_def tc'_def segment_of_def)
    have 2: "tc + total_tokens (map segment_of (take (Suc j) (h # hs))) \<le> MAX_CONTEXT_TOKENS"
    proof (cases "0 < j")
      case True
      with j(3) t show ?thesis by simp
    next
      case False
      with \<open>\<not> MAX_CONTEXT_TOKENS < tc + estimateTokenCount (msg_content h)\<close> t show ?thesis
        by (simp add: tc'_def total_tokens_def)
    qed
    have 3: "Suc j < length (h # hs) \<longrightarrow>
         tc + total_tokens (map segment_of (take (Suc j) (h # hs)))
            + estimateTokenCount (msg_content ((h # hs) ! Suc j)) > MAX_CONTEXT_TOKENS"
      using j(4) t by simp
    have "Suc j \<le> length (h # hs)" using j(1) by simp
    with 1 2 3 show ?thesis by blast
  qed
qed

text \<open>
  C1, as the code has it. The prompt \<open>buildContext\<close> returns is the most recent history
  messages, in their order, followed by the system segments (the system prompt and, when
  there are memories, the folded memory segment), which are always there whatever their
  size. Going back from the newest message, a message is selected while the running count
  of the source (the estimate of the system segments joined by a space, plus the estimates
  of the messages selected so far) stays at most \<open>MAX_CONTEXT_TOKENS\<close>; the first message
  that would take it over ends the selection, and it and all older ones are left out. So
  the running count is at most the larger of \<open>MAX_CONTEXT_TOKENS\<close> and its starting value,
  and the sum of the estimates of the returned segments is at most that bound when there
  are no memories, and at most one more when there are.
\<close>

theorem buildContext_budget:
  "\<exists>k\<le>length (conversationHistory (state a)).
      buildContext a cur mems
        = map segment_of (drop k (conversationHistory (state a))) @ system_segments mems \<and>
      (k < length (conversationHistory (state a)) \<longrightarrow>
         estimateTokenCount (join '' '' (map seg_content (system_segments mems)))
           + total_tokens (map segment_of (drop k (conversationHistory (state a))))
         \<le> MAX_CONTEXT_TOKENS) \<and>
      (0 < k \<longrightarrow>
         estimateTokenCount (join '' '' (map seg_content (system_segments mems)))
           + total_tokens (map segment_of (drop k (conversationHistory (state a))))
           + estimateTokenCount (msg_content (conversationHistory (state a) ! (k - 1)))
         > MAX_CONTEXT_TOKENS) \<and>
      estimateTokenCount (join '' '' (map seg_content (system_segments mems)))
        + total_tokens (map segment_of (drop k (conversationHistory (state a))))
        \<le> max MAX_CONTEXT_TOKENS
              (estimateTokenCount (join '' '' (map seg_content (system_segments mems)))) \<and>
      total_tokens (buildContext a cur mems)
        \<le> max MAX_CONTEXT_TOKENS
              (estimateTokenCount (join '' '' (map seg_content (system_segments mems))))
            + (if mems = [] then 0 else 1)"
proof -
  let ?tc = "estimateTokenCount (join '' '' (map seg_content (system_segments mems)))"
  let ?h = "conversationHistory (state a)"
  from history_loop_selects [of "rev ?h" ?tc "system_segments mems"] obtain j where
    j: "j \<le> length ?h"
      "history_loop (rev ?h) ?tc (system_segments mems)
         = map segment_of (rev (take j (rev ?h))) @ system_segments mems"
      "0 < j \<longrightarrow> ?tc + total_tokens (map segment_of (take j (rev ?h))) \<le> MAX_CONTEXT_TOKENS"
      "j < length ?h \<longrightarrow>
         ?tc + total_tokens (map segment_of (take j (rev ?h)))
            + estimateTokenCount (msg_content (rev ?h ! j)) > MAX_CONTEXT_TOKENS"
    by auto
  define k where "k = length ?h - j"
  have tr: "take j (rev ?h) = rev (drop k ?h)"
    by (simp add: take_rev k_def)
  have tt: "total_tokens (map segment_of (take j (rev ?h))) = total_tokens (map segment_of (drop k ?h))"
    unfolding tr by (simp add: rev_map [symmetric] total_tokens_rev)
  have kl: "k \<le> length ?h" by (simp add: k_def)
  have 1: "buildContext a cur mems = map segment_of (drop k ?h) @ system_segments mems"
    using j(2) by (simp add: buildContext_def Let_def tr)
  have 2: "k < length ?h \<longrightarrow> ?tc + total_tokens (map segment_of (drop k ?h)) \<le> MAX_CONTEXT_TOKENS"
    using j(1,3) tt by (auto simp: k_def)
  have 3: "0 < k \<longrightarrow>
         ?tc + total_tokens (map segment_of (drop k ?h))
           + estimateTokenCount (msg_content (?h ! (k - 1))) > MAX_CONTEXT_TOKENS"
  proof
    assume "0 < k"
    then have jl: "j < length ?h" by (simp add: k_def)
    then have "rev ?h ! j = ?h ! (k - 1)"
      by (simp add: rev_nth k_def)
    with j(4) jl tt show "?tc + total_tokens (map segment_of (drop k ?h))
           + estimateTokenCount (msg_content (?h ! (k - 1))) > MAX_CONTEXT_TOKENS"
      by simp
  qed
  have 4: "?tc + total_tokens (map segment_of (drop k ?h)) \<le> max MAX_CONTEXT_TOKENS ?tc"
  proof (cases "k < length ?h")
    case True
    with 2 show ?thesis by simp
  next
    case False
    with kl have "drop k ?h = []" by simp
    then show ?thesis by (simp add: total_tokens_def)
  qed
  have 5: "total_tokens (buildContext a cur mems)
             \<le> max MAX_CONTEXT_TOKENS ?tc + (if mems = [] then 0 else 1)"
  proof (cases "mems = []")
    case True
    with 1 4 system_segments_tokens_Nil show ?thesis by (simp add: total_tokens_append)
  next
    case False
    with 1 4 system_segments_tokens [of mems] show ?thesis by (simp add: total_tokens_append)
  qed
  from kl 1 2 3 4 5 show ?thesis by blast
qed

lemma history_agent_history:
  "conversationHistory (state history_agent) =
     [\<lparr>msg_id = ''1-aaa'', msg_role = User, msg_content = replicate 20000 CHR ''a'',
       msg_timestamp = 1, msg_metadata = None\<rparr>,
      \<lparr>msg_id = ''2-bbb'', msg_role = Assistant, msg_content = ''Noted'',
       msg_timestamp = 2, msg_metadata = None\<rparr>,
      \<lparr>msg_id = ''3-ccc'', msg_role = User, msg_content = ''Thanks'',
       msg_timestamp = 3, msg_metadata = None\<rparr>]"
  by (simp add: history_agent_def)

lemma system_tokens_Nil:
  "estimateTokenCount (join '' '' (map seg_content (system_segments []))) = 41"
  by (simp add: system_segments_def estimateTokenCount_eq length_system_prompt)

text \<open>
  C1, at a concrete input: of three history messages the oldest, of 20000 characters, does
  not fit; the two recent ones are selected, in their order, before the system prompt, and
  the prompt is within the budget.
\<close>

theorem buildContext_budget_witness:
  "buildContext history_agent ''Hi'' [] =
     [\<lparr>seg_role = Assistant, seg_content = ''Noted''\<rparr>,
      \<lparr>seg_role = User, seg_content = ''Thanks''\<rparr>,
      \<lparr>seg_role = System, seg_content = system_prompt\<rparr>] \<and>
   total_tokens (buildContext history_agent ''Hi'' []) \<le> MAX_CONTEXT_TOKENS"
proof -
  let ?h = "conversationHistory (state history_agent)"
  from buildContext_budget [of history_agent "''Hi''" "[]"] obtain k where
    k: "k \<le> length ?h"
       "buildContext history_agent ''Hi'' [] = map segment_of (drop k ?h) @ system_segments []"
       "k < length ?h \<longrightarrow> 41 + total_tokens (map segment_of (drop k ?h)) \<le> MAX_CONTEXT_TOKENS"
       "0 < k \<longrightarrow> 41 + total_tokens (map segment_of (drop k ?h))
           + estimateTokenCount (msg_content (?h ! (k - 1))) > MAX_CONTEXT_TOKENS"
       "total_tokens (buildContext history_agent ''Hi'' [])
          \<le> max MAX_CONTEXT_TOKENS 41 + (if ([]::memory list) = [] then 0 else 1)"
    unfolding system_tokens_Nil by blast
  from k(1) consider "k = 0" | "k = 1" | "k = 2" | "k = 3"
    unfolding history_agent_history by force
  then have "k = 1"
  proof cases
    case 1
    with k(3) show ?thesis
      by (simp add: history_agent_history total_tokens_def segment_of_def estimateTokenCount_eq
            MAX_CONTEXT_TOKENS_def)
  next
    case 2
    then show ?thesis .
  next
    case 3
    with k(4) show ?thesis
      by (simp add: history_agent_history total_tokens_def segment_of_def estimateTokenCount_eq
            MAX_CONTEXT_TOKENS_def)
  next
    case 4
    with k(4) show ?thesis
      by (simp add: history_agent_history total_tokens_def segment_of_def estimateTokenCount_eq
            MAX_CONTEXT_TOKENS_def)
  qed
  with k(2,5) show ?thesis
    by (simp add: history_agent_history segment_of_def system_segments_def MAX_CONTEXT_TOKENS_def)
qed

text \<open>
  C1 as stated fails: with one retrieved memory of 20000 characters the returned prompt is
  estimated above \<open>MAX_CONTEXT_TOKENS\<close>.
\<close>

theorem buildContext_budget_counterexample:
  "total_tokens (buildContext example_agent ''Hi'' [big_memory]) > MAX_CONTEXT_TOKENS"
  by (simp add: buildContext_def example_agent_def blank_agent_def system_segments_def
        big_memory_def total_tokens_def estimateTokenCount_eq length_system_prompt
        MAX_CONTEXT_TOKENS_def)

section \<open>Properties of the workflow records\<close>

lemma set_first_status_find:
  "find (\<lambda>w. wf_id w = wid) (set_first_status wid st ws) =
     map_option (\<lambda>w. w\<lparr>wf_status := st\<rparr>) (find (\<lambda>w. wf_id w = wid) ws)"
  by (induction ws) auto

lemma set_first_status_others:
  "filter (\<lambda>w. wf_id w \<noteq> wid) (set_first_status wid st ws) = filter (\<lambda>w. wf_id w \<noteq> wid) ws"
  by (induction ws) auto

lemma set_first_status_ids: "map wf_id (set_first_status wid st ws) = map wf_id ws"
  by (induction ws) auto

lemma saveState_workflows:
  "activeWorkflows (state (snd (saveState a))) = activeWorkflows (state a)"
  "sql_workflows (snd (saveState a)) = sql_workflows a"
  by (auto simp: saveState_def Date_now_def durable_op_def Let_def split: option.splits)

lemma triggerWorkflow_pending:
  assumes "triggerWorkflow name p a = (Inr wid, a')"
  shows "activeWorkflows (state a') =
           activeWorkflows (state a) @ [\<lparr>wf_id = wid, wf_name = name, wf_status = ''pending''\<rparr>]"
    and "\<exists>row. sql_workflows a' = sql_workflows a @ [row] \<and> row_id row = wid \<and>
               row_status row = ''pending''"
  using assms
  by (auto simp: triggerWorkflow_def generateId_def saveState_def Date_now_def durable_op_def
        Let_def split: option.splits prod.splits sum.splits)

lemma update_rows_status:
  "map row_status (filter (\<lambda>r. row_id r = wid) (update_rows wid st res t rows))
     = map (\<lambda>r. st) (filter (\<lambda>r. row_id r = wid) rows)"
  by (induction rows) (auto simp: update_rows_def)

lemma update_rows_others:
  "filter (\<lambda>r. row_id r \<noteq> wid) (update_rows wid st res t rows)
     = filter (\<lambda>r. row_id r \<noteq> wid) rows"
  by (induction rows) (auto simp: update_rows_def)

lemma update_rows_ids: "map row_id (update_rows wid st res t rows) = map row_id rows"
  by (induction rows) (auto simp: update_rows_def)

lemma set_first_status_split:
  "set_first_status wid st ws =
     takeWhile (\<lambda>w. wf_id w \<noteq> wid) ws @
     (case dropWhile (\<lambda>w. wf_id w \<noteq> wid) ws of
        [] \<Rightarrow> []
      | w # rest \<Rightarrow> w\<lparr>wf_status := st\<rparr> # rest)"
  by (induction ws) auto

lemma updateWorkflowStatus_sets:
  assumes "updateWorkflowStatus wid st res a = (Inr u, a')"
  shows "activeWorkflows (state a') = set_first_status wid st (activeWorkflows (state a))"
    and "sql_workflows a' =
           update_rows wid st (case res of Some v \<Rightarrow> if truthy v then Some v else None | None \<Rightarrow> None)
             (clock a (clock_reads a)) (sql_workflows a)"
  using assms
  by (auto simp: updateWorkflowStatus_def saveState_def Date_now_def
        durable_op_def Let_def split: option.splits prod.splits sum.splits)

text \<open>
  C7, as the code has it. A workflow that \<open>triggerWorkflow\<close> creates is entered with
  status \<open>pending\<close>, in memory and in the SQL table. A call of \<open>updateWorkflowStatus\<close>
  that returns writes the given status to the workflow with the given id (the first such
  in memory, every such row in SQL, with the result and the completion time) whatever
  status it had, and leaves the workflows and the rows with other ids as they were.
\<close>

theorem workflow_status_written:
  "(\<forall>wid a'. triggerWorkflow name p a = (Inr wid, a') \<longrightarrow>
      activeWorkflows (state a') =
        activeWorkflows (state a) @ [\<lparr>wf_id = wid, wf_name = name, wf_status = ''pending''\<rparr>] \<and>
      (\<exists>row. sql_workflows a' = sql_workflows a @ [row] \<and> row_id row = wid \<and>
             row_status row = ''pending'')) \<and>
   (\<forall>u a'. updateWorkflowStatus workflowId status res a = (Inr u, a') \<longrightarrow>
      find (\<lambda>w. wf_id w = workflowId) (activeWorkflows (state a')) =
        map_option (\<lambda>w. w\<lparr>wf_status := status\<rparr>)
          (find (\<lambda>w. wf_id w = workflowId) (activeWorkflows (state a))) \<and>
      filter (\<lambda>w. wf_id w \<noteq> workflowId) (activeWorkflows (state a')) =
        filter (\<lambda>w. wf_id w \<noteq> workflowId) (activeWorkflows (state a)) \<and>
      activeWorkflows (state a') =
        takeWhile (\<lambda>w. wf_id w \<noteq> workflowId) (activeWorkflows (state a)) @
        (case dropWhile (\<lambda>w. wf_id w \<noteq> workflowId) (activeWorkflows (state a)) of
           [] \<Rightarrow> []
         | w # rest \<Rightarrow> w\<lparr>wf_status := status\<rparr> # rest) \<and>
      map row_status (filter (\<lambda>r. row_id r = workflowId) (sql_workflows a'))
        = map (\<lambda>r. status) (filter (\<lambda>r. row_id r = workflowId) (sql_workflows a)) \<and>
      filter (\<lambda>r. row_id r \<noteq> workflowId) (sql_workflows a')
        = filter (\<lambda>r. row_id r \<noteq> workflowId) (sql_workflows a) \<and>
      map row_id (sql_workflows a') = map row_id (sql_workflows a) \<and>
      sql_workflows a' =
        map (\<lambda>r. if row_id r = workflowId
                  then r\<lparr>row_status := status,
                         row_result := (case res of
                                          Some v \<Rightarrow> if truthy v then Some v else None
                                        | None \<Rightarrow> None),
                         row_completed_at := Some (clock a (clock_reads a))\<rparr>
                  else r) (sql_workflows a))"
proof (intro conjI allI impI)
  fix wid a'
  assume "triggerWorkflow name p a = (Inr wid, a')"
  from triggerWorkflow_pending [OF this]
  show "activeWorkflows (state a') =
          activeWorkflows (state a) @ [\<lparr>wf_id = wid, wf_name = name, wf_status = ''pending''\<rparr>]"
    and "\<exists>row. sql_workflows a' = sql_workflows a @ [row] \<and> row_id row = wid \<and>
               row_status row = ''pending''"
    by simp_all
next
  fix u a'
  assume h: "updateWorkflowStatus workflowId status res a = (Inr u, a')"
  note m = updateWorkflowStatus_sets(1) [OF h]
  note r = updateWorkflowStatus_sets(2) [OF h]
  show "find (\<lambda>w. wf_id w = workflowId) (activeWorkflows (state a')) =
          map_option (\<lambda>w. w\<lparr>wf_status := status\<rparr>)
            (find (\<lambda>w. wf_id w = workflowId) (activeWorkflows (state a)))"
    unfolding m by (rule set_first_status_find)
  show "filter (\<lambda>w. wf_id w \<noteq> workflowId) (activeWorkflows (state a')) =
          filter (\<lambda>w. wf_id w \<noteq> workflowId) (activeWorkflows (state a))"
    unfolding m by (rule set_first_status_others)
  show "activeWorkflows (state a') =
        takeWhile (\<lambda>w. wf_id w \<noteq> workflowId) (activeWorkflows (state a)) @
        (case dropWhile (\<lambda>w. wf_id w \<noteq> workflowId) (activeWorkflows (state a)) of
           [] \<Rightarrow> []
         | w # rest \<Rightarrow> w\<lparr>wf_status := status\<rparr> # rest)"
    unfolding m by (rule set_first_status_split)
  show "map row_status (filter (\<lambda>r. row_id r = workflowId) (sql_workflows a'))
          = map (\<lambda>r. status) (filter (\<lambda>r. row_id r = workflowId) (sql_workflows a))"
    unfolding r by (rule update_rows_status)
  show "filter (\<lambda>r. row_id r \<noteq> workflowId) (sql_workflows a')
          = filter (\<lambda>r. row_id r \<noteq> workflowId) (sql_workflows a)"
    unfolding r by (rule update_rows_others)
  show "map row_id (sql_workflows a') = map row_id (sql_workflows a)"
    unfolding r by (rule update_rows_ids)
  show "sql_workflows a' =
        map (\<lambda>r. if row_id r = workflowId
                  then r\<lparr>row_status := status,
                         row_result := (case res of
                                          Some v \<Rightarrow> if truthy v then Some v else None
                                        | None \<Rightarrow> None),
                         row_completed_at := Some (clock a (clock_reads a))\<rparr>
                  else r) (sql_workflows a)"
    unfolding r by (simp add: update_rows_def)
qed

lemma example_trigger:
  "\<exists>a1. triggerWorkflow ''job'' JNull example_agent = (Inr (show_int 1000 @ ''-abc''), a1)"
  by (simp add: triggerWorkflow_def example_agent_def blank_agent_def generateId_def
        Date_now_def durable_op_def saveState_def Let_def)

lemma show_int_1000: "show_int 1000 = ''1000''"
  by (simp add: show_int_def show_nat.simps digit_char_def)

lemma example_triggered:
  "triggerWorkflow ''job'' JNull example_agent = (Inr ''1000-abc'', agent_triggered)"
  by (simp add: agent_triggered_def triggerWorkflow_def example_agent_def blank_agent_def
        generateId_def Date_now_def durable_op_def saveState_def Let_def show_int_1000)

lemma agent_triggered_workflows:
  "activeWorkflows (state agent_triggered) =
     [\<lparr>wf_id = ''1000-abc'', wf_name = ''job'', wf_status = ''pending''\<rparr>]"
  using triggerWorkflow_pending(1) [OF example_triggered]
  by (simp add: example_agent_def blank_agent_def)

lemma agent_triggered_durable: "durable agent_triggered = (\<lambda>k. None)"
  by (simp add: agent_triggered_def triggerWorkflow_def example_agent_def blank_agent_def
        generateId_def Date_now_def durable_op_def saveState_def Let_def)

lemma updateWorkflowStatus_succeeds:
  "durable a = (\<lambda>k. None) \<Longrightarrow>
   fst (updateWorkflowStatus wid st res a) = Inr () \<and>
   durable (snd (updateWorkflowStatus wid st res a)) = (\<lambda>k. None)"
  by (simp add: updateWorkflowStatus_def Date_now_def durable_op_def saveState_def Let_def
        split: prod.splits)

lemma example_completed:
  "updateWorkflowStatus ''1000-abc'' ''completed'' None agent_triggered = (Inr (), agent_completed)"
  using updateWorkflowStatus_succeeds [OF agent_triggered_durable, of "''1000-abc''" "''completed''" None]
  by (simp add: agent_completed_def prod_eq_iff)

lemma example_reopened:
  "updateWorkflowStatus ''1000-abc'' ''pending'' None agent_completed = (Inr (), agent_reopened)"
proof -
  have "durable agent_completed = (\<lambda>k. None)"
    using updateWorkflowStatus_succeeds [OF agent_triggered_durable, of "''1000-abc''" "''completed''" None]
    by (simp add: agent_completed_def)
  from updateWorkflowStatus_succeeds [OF this, of "''1000-abc''" "''pending''" None]
  show ?thesis by (simp add: agent_reopened_def prod_eq_iff)
qed

lemma updateWorkflowStatus_rows:
  "sql_workflows (snd (updateWorkflowStatus wid st res a)) =
     (if durable a (durable_ops a) = None
      then update_rows wid st (case res of Some v \<Rightarrow> if truthy v then Some v else None | None \<Rightarrow> None)
             (clock a (clock_reads a)) (sql_workflows a)
      else sql_workflows a)"
  by (auto simp: updateWorkflowStatus_def Date_now_def durable_op_def saveState_def Let_def
        split: prod.splits option.splits)

lemma update_rows_map:
  "map row_status (update_rows wid st res t rows) =
     map (\<lambda>r. if row_id r = wid then st else row_status r) rows"
  "map row_id (update_rows wid st res t rows) = map row_id rows"
  by (induction rows) (auto simp: update_rows_def)

text \<open>
  C7, at a concrete input: a triggered workflow is pending, and reporting it completed
  makes it completed.
\<close>

theorem workflow_status_written_witness:
  "triggerWorkflow ''job'' JNull example_agent = (Inr ''1000-abc'', agent_triggered) \<and>
   map wf_status (activeWorkflows (state agent_triggered)) = [''pending''] \<and>
   updateWorkflowStatus ''1000-abc'' ''completed'' None agent_triggered = (Inr (), agent_completed) \<and>
   find (\<lambda>w. wf_id w = ''1000-abc'') (activeWorkflows (state agent_completed)) =
     Some \<lparr>wf_id = ''1000-abc'', wf_name = ''job'', wf_status = ''completed''\<rparr>"
  using workflow_status_written [of "''job''" JNull example_agent "''1000-abc''" "''completed''" None]
        workflow_status_written [of "''job''" JNull agent_triggered "''1000-abc''" "''completed''" None]
        example_triggered example_completed
  by (simp add: example_agent_def blank_agent_def)

text \<open>
  C7 as stated fails: a workflow that is completed is set back to \<open>pending\<close> by a later
  \<open>updateWorkflowStatus\<close>, in memory and in SQL.
\<close>

theorem workflow_terminal_counterexample:
  "map wf_status (activeWorkflows (state agent_completed)) = [''completed''] \<and>
   map wf_status (activeWorkflows (state agent_reopened)) = [''pending''] \<and>
   map row_status (sql_workflows agent_completed) = [''completed''] \<and>
   map row_status (sql_workflows agent_reopened) = [''pending'']"
proof -
  have w1: "activeWorkflows (state agent_completed) =
      [\<lparr>wf_id = ''1000-abc'', wf_name = ''job'', wf_status = ''completed''\<rparr>]"
    using updateWorkflowStatus_sets(1) [OF example_completed]
    by (simp add: agent_triggered_workflows)
  have w2: "activeWorkflows (state agent_reopened) =
      [\<lparr>wf_id = ''1000-abc'', wf_name = ''job'', wf_status = ''pending''\<rparr>]"
    using updateWorkflowStatus_sets(1) [OF example_reopened] w1 by simp
  have d: "durable agent_triggered (durable_ops agent_triggered) = None"
    by (simp add: agent_triggered_durable)
  have d': "durable agent_completed (durable_ops agent_completed) = None"
    using updateWorkflowStatus_succeeds [OF agent_triggered_durable, of "''1000-abc''" "''completed''" None]
    by (simp add: agent_completed_def)
  have r0: "map row_id (sql_workflows agent_triggered) = [''1000-abc'']"
    using triggerWorkflow_pending(2) [OF example_triggered]
    by (auto simp: example_agent_def blank_agent_def)
  have r1: "map row_status (sql_workflows agent_completed) = [''completed'']"
    using r0 d by (auto simp: agent_completed_def updateWorkflowStatus_rows update_rows_map)
  have r0': "map row_id (sql_workflows agent_completed) = [''1000-abc'']"
    using r0 d by (auto simp: agent_completed_def updateWorkflowStatus_rows update_rows_map)
  have r2: "map row_status (sql_workflows agent_reopened) = [''pending'']"
    using r0' d' by (auto simp: agent_reopened_def updateWorkflowStatus_rows update_rows_map)
  show ?thesis using w1 w2 r1 r2 by simp
qed

section \<open>Properties of the message pipeline\<close>

lemma quiet_step_refl: "quiet_step a a"
  by (simp add: quiet_step_def world_same_def)

lemma quiet_step_trans: "quiet_step a b \<Longrightarrow> quiet_step b c \<Longrightarrow> quiet_step a c"
  by (simp add: quiet_step_def world_same_def)

lemma Date_now_quiet: "Date_now a = (t, b) \<Longrightarrow> quiet_step a b \<and> sql_messages b = sql_messages a \<and> ai_log b = ai_log a \<and> slept b = slept a \<and> state b = state a"
  by (auto simp: Date_now_def quiet_step_def world_same_def)

lemma Date_now_value:
  "Date_now a = (t, b) \<Longrightarrow> t = clock a (clock_reads a) \<and> clock_reads b = Suc (clock_reads a)"
  by (auto simp: Date_now_def)

lemma generateId_quiet: "generateId a = (i, b) \<Longrightarrow> quiet_step a b \<and> sql_messages b = sql_messages a \<and> ai_log b = ai_log a \<and> slept b = slept a \<and> state b = state a"
  by (auto simp: generateId_def Date_now_def quiet_step_def world_same_def Let_def)

lemma generateId_reads: "generateId a = (i, b) \<Longrightarrow> clock_reads b = Suc (clock_reads a)"
  by (auto simp: generateId_def Date_now_def Let_def)

lemma generateId_value:
  "generateId a = (i, b) \<Longrightarrow>
     i = show_int (clock a (clock_reads a)) @ ''-'' @ random a (random_reads a) \<and>
     random_reads b = Suc (random_reads a)"
  by (auto simp: generateId_def Date_now_def Let_def)

lemma durable_op_quiet:
  assumes "\<And>x. quiet_step x (write x) \<and> durable_ops (write x) = durable_ops x \<and> ai_log (write x) = ai_log x \<and> slept (write x) = slept x"
      and "durable_op write a = (r, b)"
  shows "quiet_step a b \<and> ai_log b = ai_log a \<and> slept b = slept a"
proof (cases "durable a (durable_ops a)")
  case None
  with assms(2) have b: "b = write (a\<lparr>durable_ops := Suc (durable_ops a)\<rparr>)"
    by (auto simp: durable_op_def Let_def)
  from assms(1) [of "a\<lparr>durable_ops := Suc (durable_ops a)\<rparr>"] show ?thesis
    unfolding b by (auto simp: quiet_step_def world_same_def)
next
  case (Some e)
  with assms(2) show ?thesis
    by (auto simp: durable_op_def Let_def quiet_step_def world_same_def)
qed

lemma saveMessage_quiet: "saveMessage m a = (r, b) \<Longrightarrow> quiet_step a b \<and> ai_log b = ai_log a \<and> slept b = slept a"
  unfolding saveMessage_def
  by (rule durable_op_quiet [rotated]) (auto simp: quiet_step_def world_same_def)

lemma saveMessage_ops: "saveMessage m a = (r, b) \<Longrightarrow> durable_ops b = Suc (durable_ops a)"
  by (auto simp: saveMessage_def durable_op_def Let_def split: option.splits)

lemma saveState_ops: "saveState a = (r, b) \<Longrightarrow> durable_ops b = Suc (durable_ops a)"
  by (auto simp: saveState_def durable_op_def Date_now_def Let_def split: option.splits)

lemma saveMessage_rows:
  "saveMessage m a = (r, b) \<Longrightarrow>
     (case r of Inr u \<Rightarrow> sql_messages b = sql_messages a @ [m] \<and> durable a (durable_ops a) = None
      | Inl e \<Rightarrow> sql_messages b = sql_messages a \<and> durable a (durable_ops a) = Some e) \<and>
     state b = state a"
  by (auto simp: saveMessage_def durable_op_def Let_def split: option.splits)

lemma saveState_quiet: "saveState a = (r, b) \<Longrightarrow> quiet_step a b \<and> sql_messages b = sql_messages a \<and> ai_log b = ai_log a \<and> slept b = slept a"
  by (auto simp: saveState_def durable_op_def Date_now_def Let_def quiet_step_def world_same_def
        split: option.splits)

lemma saveState_result:
  "saveState a = (r, b) \<Longrightarrow>
     (case r of Inr u \<Rightarrow> durable a (durable_ops a) = None
      | Inl e \<Rightarrow> durable a (durable_ops a) = Some e)"
  by (auto simp: saveState_def durable_op_def Date_now_def Let_def split: option.splits)

lemma generateEmbedding_quiet:
  "generateEmbedding t a = (r, b) \<Longrightarrow>
     quiet_step a b \<and> sql_messages b = sql_messages a \<and> slept b = slept a \<and> state b = state a \<and>
     durable_ops b = durable_ops a \<and>
     ai_log b = ai_log a @ [EmbedRequest EMBEDDING_MODEL t]"
  by (auto simp: generateEmbedding_def AI_run_def quiet_step_def world_same_def
        split: sum.splits option.splits prod.splits)

lemma storeInMemory_quiet:
  "storeInMemory c ty mid uid ro a = b \<Longrightarrow>
     quiet_step a b \<and> sql_messages b = sql_messages a \<and> slept b = slept a \<and> state b = state a \<and>
     durable_ops b = durable_ops a \<and>
     ai_log b = ai_log a @ [EmbedRequest EMBEDDING_MODEL c]"
  by (auto simp: storeInMemory_def generateEmbedding_def AI_run_def generateId_def Date_now_def
        VECTORIZE_call_def quiet_step_def world_same_def Let_def
        split: sum.splits option.splits prod.splits)

lemma searchMemory_quiet:
  "searchMemory q a = (ms, b) \<Longrightarrow>
     quiet_step a b \<and> sql_messages b = sql_messages a \<and> slept b = slept a \<and> state b = state a \<and>
     durable_ops b = durable_ops a \<and>
     ai_log b = ai_log a @ [EmbedRequest EMBEDDING_MODEL q]"
  by (auto simp: searchMemory_def generateEmbedding_def AI_run_def
        VECTORIZE_call_def quiet_step_def world_same_def Let_def
        split: sum.splits option.splits prod.splits)

lemma trimHistory_quiet:
  "quiet_step a (trimHistory a) \<and> sql_messages (trimHistory a) = sql_messages a \<and>
   ai_log (trimHistory a) = ai_log a \<and> slept (trimHistory a) = slept a \<and>
   durable_ops (trimHistory a) = durable_ops a"
  by (simp add: trimHistory_def Let_def quiet_step_def world_same_def)

lemma push_history_quiet:
  "quiet_step a (push_history m a) \<and> sql_messages (push_history m a) = sql_messages a \<and>
   ai_log (push_history m a) = ai_log a \<and> slept (push_history m a) = slept a \<and>
   durable_ops (push_history m a) = durable_ops a \<and> clock_reads (push_history m a) = clock_reads a"
  by (simp add: push_history_def quiet_step_def world_same_def)

lemma AI_run_step:
  "AI_run req a = (r, b) \<Longrightarrow>
     r = ai a (length (ai_log a)) \<and> b = a\<lparr>ai_log := ai_log a @ [req]\<rparr>"
  by (auto simp: AI_run_def)

lemma retry_loop_log:
  "retry_loop k i (AI_run req) d e a = (r, b) \<Longrightarrow>
     quiet_step a b \<and> sql_messages b = sql_messages a \<and> state b = state a \<and>
     durable_ops b = durable_ops a \<and> clock_reads b = clock_reads a \<and>
     (\<exists>n\<le>k. ai_log b = ai_log a @ replicate n req \<and> (0 < k \<longrightarrow> 0 < n))"
proof (induction k arbitrary: i e a)
  case 0
  then show ?case by (auto simp: quiet_step_refl)
next
  case (Suc k)
  show ?case
  proof (cases "ai a (length (ai_log a))")
    case (Inr v)
    with Suc.prems have "b = a\<lparr>ai_log := ai_log a @ [req]\<rparr>"
      by (simp add: AI_run_def)
    then have "quiet_step a b" "sql_messages b = sql_messages a" "state b = state a"
      "durable_ops b = durable_ops a" "clock_reads b = clock_reads a"
      "ai_log b = ai_log a @ replicate 1 req"
      by (simp_all add: quiet_step_def world_same_def)
    moreover have "\<exists>n\<le>Suc k. ai_log a @ replicate 1 req = ai_log a @ replicate n req \<and> (0 < Suc k \<longrightarrow> 0 < n)"
      by (rule exI [of _ 1]) simp
    ultimately show ?thesis by simp
  next
    case (Inl x)
    define a1 where "a1 = a\<lparr>ai_log := ai_log a @ [req]\<rparr>"
    define a2 where "a2 = (if 0 < k then sleep (d * 2 ^ i) a1 else a1)"
    define e' where "e' = (case x of Error m \<Rightarrow> Error m | Undefined \<Rightarrow> Error ''undefined'')"
    have st: "AI_run req a = (Inl x, a1)"
      by (simp add: AI_run_def a1_def Inl)
    from Suc.prems have r: "retry_loop k (Suc i) (AI_run req) d e' a2 = (r, b)"
      unfolding retry_loop.simps st by (simp add: a2_def e'_def)
    have q: "quiet_step a a2" "sql_messages a2 = sql_messages a" "state a2 = state a"
      "durable_ops a2 = durable_ops a" "clock_reads a2 = clock_reads a"
      "ai_log a2 = ai_log a @ [req]"
      by (simp_all add: a2_def a1_def sleep_def quiet_step_def world_same_def)
    from Suc.IH [OF r] obtain n where n: "n \<le> k" "ai_log b = ai_log a2 @ replicate n req"
      and f: "quiet_step a2 b" "sql_messages b = sql_messages a2" "state b = state a2"
        "durable_ops b = durable_ops a2" "clock_reads b = clock_reads a2"
      by blast
    have "ai_log b = ai_log a @ replicate (Suc n) req"
      using n q by (simp add: replicate_app_Cons_same)
    moreover have "Suc n \<le> Suc k" using n by simp
    ultimately show ?thesis
      using f q quiet_step_trans [OF q(1) f(1)] by auto
  qed
qed

lemma retry_loop_all_fail:
  "\<forall>j<k. isl (ai a (length (ai_log a) + j)) \<Longrightarrow>
   retry_loop k i (AI_run req) d e a = (r, b) \<Longrightarrow>
     (0 < k \<or> isl (Inl e :: js_error + ai_response)) \<and> isl r \<and>
     ai_log b = ai_log a @ replicate k req \<and>
     slept b = slept a @ map (\<lambda>j. d * 2 ^ (i + j)) [0..<k - 1]"
proof (induction k arbitrary: i e a)
  case 0
  then show ?case by auto
next
  case (Suc k)
  from Suc.prems(1) have "isl (ai a (length (ai_log a)))" by force
  then obtain x where x: "ai a (length (ai_log a)) = Inl x" by (cases "ai a (length (ai_log a))") auto
  define a1 where "a1 = a\<lparr>ai_log := ai_log a @ [req]\<rparr>"
  define a2 where "a2 = (if 0 < k then sleep (d * 2 ^ i) a1 else a1)"
  define e' where "e' = (case x of Error m \<Rightarrow> Error m | Undefined \<Rightarrow> Error ''undefined'')"
  have st: "AI_run req a = (Inl x, a1)"
    by (simp add: AI_run_def a1_def x)
  from Suc.prems(2) have r: "retry_loop k (Suc i) (AI_run req) d e' a2 = (r, b)"
    unfolding retry_loop.simps st by (simp add: a2_def e'_def)
  have l: "ai_log a2 = ai_log a @ [req]" "ai a2 = ai a"
    by (simp_all add: a2_def a1_def sleep_def)
  have s: "slept a2 = slept a @ (if 0 < k then [d * 2 ^ i] else [])"
    by (simp add: a2_def a1_def sleep_def)
  have "\<forall>j<k. isl (ai a2 (length (ai_log a2) + j))"
    using Suc.prems(1) l by auto
  from Suc.IH [OF this r] have ih: "isl r" "ai_log b = ai_log a2 @ replicate k req"
    "slept b = slept a2 @ map (\<lambda>j. d * 2 ^ (Suc i + j)) [0..<k - 1]"
    by simp_all
  have "slept b = slept a @ map (\<lambda>j. d * 2 ^ (i + j)) [0..<Suc k - 1]"
  proof (cases k)
    case 0
    with ih s show ?thesis by simp
  next
    case (Suc k')
    have "[0..<Suc k'] = 0 # map Suc [0..<k']"
      by (simp add: upt_conv_Cons map_Suc_upt del: upt_Suc)
    with ih s Suc show ?thesis by (simp add: comp_def del: upt_Suc)
  qed
  with ih l show ?case by (simp add: replicate_app_Cons_same)
qed

lemma apology_nonempty: "apology \<noteq> []"
  by (simp add: apology_def)

lemma generateAIResponse_quiet:
  assumes "generateAIResponse msgs a = (r, b)"
  shows "quiet_step a b \<and> sql_messages b = sql_messages a \<and> state b = state a \<and>
         durable_ops b = durable_ops a \<and> clock_reads b = clock_reads a \<and> r \<noteq> [] \<and>
         (\<exists>n. 1 \<le> n \<and> n \<le> 3 \<and> ai_log b = ai_log a @ replicate n (ChatRequest LLM_MODEL msgs))"
proof -
  obtain r0 b0 where rt: "retry (AI_run (ChatRequest LLM_MODEL msgs)) 3 1000 a = (r0, b0)"
    by (cases "retry (AI_run (ChatRequest LLM_MODEL msgs)) 3 1000 a")
  with assms have b: "b = b0" and nz: "r \<noteq> []"
    by (auto simp: generateAIResponse_def apology_nonempty split: sum.splits option.splits if_splits)
  from rt have "retry_loop 3 0 (AI_run (ChatRequest LLM_MODEL msgs)) 1000 Undefined a = (r0, b0)"
    by (simp add: retry_def)
  from retry_loop_log [OF this] b nz show ?thesis
    by (auto simp: Suc_le_eq)
qed

lemma generateAIResponse_all_fail:
  assumes "\<forall>j<3. isl (ai a (length (ai_log a) + j))"
      and "generateAIResponse msgs a = (r, b)"
  shows "r = apology \<and> ai_log b = ai_log a @ replicate 3 (ChatRequest LLM_MODEL msgs) \<and>
         slept b = slept a @ [1000, 2000]"
proof -
  obtain r0 b0 where rt: "retry_loop 3 0 (AI_run (ChatRequest LLM_MODEL msgs)) 1000 Undefined a = (r0, b0)"
    by (cases "retry_loop 3 0 (AI_run (ChatRequest LLM_MODEL msgs)) 1000 Undefined a")
  from retry_loop_all_fail [OF assms(1) rt]
  have f: "isl r0" "ai_log b0 = ai_log a @ replicate 3 (ChatRequest LLM_MODEL msgs)"
    "slept b0 = slept a @ map (\<lambda>j. 1000 * 2 ^ (0 + j)) [0..<3 - 1]"
    by simp_all
  have u: "[0..<3 - 1] = [0, Suc 0]" by (simp add: upt_conv_Cons)
  from f(1) obtain e where "r0 = Inl e" by (cases r0) auto
  with assms(2) rt have "r = apology" "b = b0"
    by (simp_all add: generateAIResponse_def retry_def)
  with f u show ?thesis by simp
qed

lemma processMessage_summary:
  assumes pm: "processMessage content userId a0 = (res, a')"
  shows "quiet_step a0 a' \<and>
     (\<exists>u. msg_role u = User \<and> msg_content u = sanitizeInput content \<and>
          msg_timestamp u = clock a0 (clock_reads a0 + 2) \<and>
          msg_id u = show_int (clock a0 (clock_reads a0 + 1)) @ ''-'' @ random a0 (random_reads a0) \<and>
      (case res of
         Inl e \<Rightarrow> (\<exists>j<3. durable a0 (durable_ops a0 + j) = Some e)
       | Inr m \<Rightarrow>
           sql_messages a' = sql_messages a0 @ [u, m] \<and>
           msg_role m = Assistant \<and> msg_content m \<noteq> [] \<and>
           (\<exists>k\<ge>clock_reads a0 + 3. msg_timestamp m = clock a0 k) \<and>
           (\<exists>k j. random_reads a0 < j \<and>
              msg_id m = show_int (clock a0 k) @ ''-'' @ random a0 j) \<and>
           (\<exists>ctx n. 1 \<le> n \<and> n \<le> 3 \<and>
              ai_log a' = ai_log a0 @
                [EmbedRequest EMBEDDING_MODEL (sanitizeInput content),
                 EmbedRequest EMBEDDING_MODEL (sanitizeInput content)] @
                replicate n (ChatRequest LLM_MODEL ctx) @
                [EmbedRequest EMBEDDING_MODEL (msg_content m)] \<and>
              ((\<forall>j<3. isl (ai a0 (length (ai_log a0) + 2 + j))) \<longrightarrow>
                 n = 3 \<and> msg_content m = apology \<and> slept a' = slept a0 @ [1000, 2000]))))"
proof -
  define c where "c = clock_reads a0"
  define s where "s = sanitizeInput content"
  define truthyId where "truthyId = (case userId of Some u \<Rightarrow> u \<noteq> [] | None \<Rightarrow> False)"
  define who where "who = (if truthyId then the userId else ''anonymous'')"
  obtain startTime a1 where s1: "Date_now a0 = (startTime, a1)" by (cases "Date_now a0")
  define a2 where "a2 = (if truthyId then a1\<lparr>state := (state a1)\<lparr>userContext_userId := the userId\<rparr>\<rparr> else a1)"
  obtain userMsgId a3 where s3: "generateId a2 = (userMsgId, a3)" by (cases "generateId a2")
  obtain userTs a4 where s4: "Date_now a3 = (userTs, a4)" by (cases "Date_now a3")
  define u where "u = \<lparr>msg_id = userMsgId, msg_role = User, msg_content = s,
                         msg_timestamp = userTs, msg_metadata = None\<rparr>"
  obtain r5 a5 where s5: "saveMessage u (push_history u a4) = (r5, a5)"
    by (cases "saveMessage u (push_history u a4)")
  \<comment> \<open>up to the first write\<close>
  have f1: "quiet_step a0 a1" "sql_messages a1 = sql_messages a0" "ai_log a1 = ai_log a0"
    "slept a1 = slept a0" "clock_reads a1 = Suc c" "durable_ops a1 = durable_ops a0" "random_reads a1 = random_reads a0"
    using Date_now_quiet [OF s1] Date_now_value [OF s1] by (simp_all add: c_def Date_now_def)
      (use s1 in \<open>auto simp: Date_now_def\<close>)
  have f2: "quiet_step a1 a2" "sql_messages a2 = sql_messages a1" "ai_log a2 = ai_log a1"
    "slept a2 = slept a1" "clock_reads a2 = clock_reads a1" "durable_ops a2 = durable_ops a1" "random_reads a2 = random_reads a1"
    by (simp_all add: a2_def quiet_step_def world_same_def)
  have f3: "quiet_step a2 a3" "sql_messages a3 = sql_messages a2" "ai_log a3 = ai_log a2"
    "slept a3 = slept a2" "clock_reads a3 = Suc (clock_reads a2)" "durable_ops a3 = durable_ops a2"
    "userMsgId = show_int (clock a2 (clock_reads a2)) @ ''-'' @ random a2 (random_reads a2)"
    "random_reads a3 = Suc (random_reads a2)"
    using generateId_quiet [OF s3] generateId_reads [OF s3] generateId_value [OF s3] by simp_all
      (use s3 in \<open>auto simp: generateId_def Date_now_def Let_def\<close>)
  have f4: "quiet_step a3 a4" "sql_messages a4 = sql_messages a3" "ai_log a4 = ai_log a3"
    "slept a4 = slept a3" "clock_reads a4 = Suc (clock_reads a3)" "durable_ops a4 = durable_ops a3"
    "userTs = clock a3 (clock_reads a3)"
    using Date_now_quiet [OF s4] Date_now_value [OF s4] by simp_all
      (use s4 in \<open>auto simp: Date_now_def\<close>)
  have q4: "quiet_step a0 a4"
    using f1(1) f2(1) f3(1) f4(1) by (blast intro: quiet_step_trans)
  have uts: "msg_timestamp u = clock a0 (c + 2)"
    using f1 f2 f3 f4 by (simp add: u_def quiet_step_def world_same_def)
  have uf: "msg_role u = User" "msg_content u = sanitizeInput content"
    by (simp_all add: u_def s_def)
  have uid: "msg_id u = show_int (clock a0 (c + 1)) @ ''-'' @ random a0 (random_reads a0)"
    using f1 f2 f3 by (simp add: u_def quiet_step_def world_same_def)
  have f5: "quiet_step (push_history u a4) a5" "ai_log a5 = ai_log a4" "slept a5 = slept a4"
    "durable_ops a5 = Suc (durable_ops a4)"
    using saveMessage_quiet [OF s5] saveMessage_ops [OF s5] push_history_quiet [of a4 u] by simp_all
  have q5: "quiet_step a0 a5"
    using q4 push_history_quiet [of a4 u] f5(1) by (blast intro: quiet_step_trans)
  have d0: "durable (push_history u a4) = durable a0" "durable_ops (push_history u a4) = durable_ops a0"
    using q4 f1 f2 f3 f4 push_history_quiet [of a4 u] by (simp_all add: quiet_step_def world_same_def)
  show ?thesis
  proof (cases r5)
    case (Inl e)
    with pm s1 s3 s4 s5 have "res = Inl e" "a' = a5"
      by (simp_all add: processMessage_def Let_def s_def [symmetric] truthyId_def [symmetric]
          a2_def [symmetric] u_def [symmetric])
    moreover have dk: "durable a0 (durable_ops a0 + 0) = Some e"
      using saveMessage_rows [OF s5] Inl d0 by simp
    moreover have "\<exists>j<3. durable a0 (durable_ops a0 + j) = Some e"
      using dk by (intro exI [of _ 0]) simp
    ultimately show ?thesis using q5 uts uf uid
      by (intro conjI exI [of _ u]) (simp_all add: c_def)
  next
    case (Inr x5)
    have r5: "sql_messages a5 = sql_messages a0 @ [u]" "durable a0 (durable_ops a0) = None"
      using saveMessage_rows [OF s5] Inr d0 f1 f2 f3 f4 push_history_quiet [of a4 u] by simp_all
    define a6 where "a6 = storeInMemory s ''conversation'' userMsgId who ''user'' a5"
    obtain relevantMemories a7 where s7: "searchMemory s a6 = (relevantMemories, a7)"
      by (cases "searchMemory s a6")
    define ctx where "ctx = buildContext a7 s relevantMemories"
    obtain aiResponse a8 where s8: "generateAIResponse ctx a7 = (aiResponse, a8)"
      by (cases "generateAIResponse ctx a7")
    obtain asstMsgId a9 where s9: "generateId a8 = (asstMsgId, a9)" by (cases "generateId a8")
    obtain asstTs a10 where s10: "Date_now a9 = (asstTs, a10)" by (cases "Date_now a9")
    obtain endTime a11 where s11: "Date_now a10 = (endTime, a11)" by (cases "Date_now a10")
    define m where "m = \<lparr>msg_id = asstMsgId, msg_role = Assistant, msg_content = aiResponse,
             msg_timestamp = asstTs,
             msg_metadata = Some \<lparr>responseTime = endTime - startTime, model = LLM_MODEL,
                                  tokensUsed = estimateTokenCount aiResponse\<rparr>\<rparr>"
    obtain r12 a12 where s12: "saveMessage m (push_history m a11) = (r12, a12)"
      by (cases "saveMessage m (push_history m a11)")
    have f6: "quiet_step a5 a6" "sql_messages a6 = sql_messages a5" "slept a6 = slept a5"
      "durable_ops a6 = durable_ops a5" "ai_log a6 = ai_log a5 @ [EmbedRequest EMBEDDING_MODEL s]"
      using storeInMemory_quiet [OF a6_def [symmetric]] by simp_all
    have f7: "quiet_step a6 a7" "sql_messages a7 = sql_messages a6" "slept a7 = slept a6"
      "durable_ops a7 = durable_ops a6" "ai_log a7 = ai_log a6 @ [EmbedRequest EMBEDDING_MODEL s]"
      using searchMemory_quiet [OF s7] by simp_all
    from generateAIResponse_quiet [OF s8] obtain n where
      f8: "quiet_step a7 a8" "sql_messages a8 = sql_messages a7"
        "durable_ops a8 = durable_ops a7" "aiResponse \<noteq> []"
      and n: "1 \<le> n" "n \<le> 3" "ai_log a8 = ai_log a7 @ replicate n (ChatRequest LLM_MODEL ctx)"
      by blast
    have f9: "quiet_step a8 a9" "sql_messages a9 = sql_messages a8" "ai_log a9 = ai_log a8"
      "slept a9 = slept a8" "durable_ops a9 = durable_ops a8"
      "asstMsgId = show_int (clock a8 (clock_reads a8)) @ ''-'' @ random a8 (random_reads a8)"
      using generateId_quiet [OF s9] generateId_value [OF s9] by simp_all
        (use s9 in \<open>auto simp: generateId_def Date_now_def Let_def\<close>)
    have f10: "quiet_step a9 a10" "sql_messages a10 = sql_messages a9" "ai_log a10 = ai_log a9"
      "slept a10 = slept a9" "durable_ops a10 = durable_ops a9" "asstTs = clock a9 (clock_reads a9)"
      using Date_now_quiet [OF s10] Date_now_value [OF s10] by simp_all
        (use s10 in \<open>auto simp: Date_now_def\<close>)
    have f11: "quiet_step a10 a11" "sql_messages a11 = sql_messages a10" "ai_log a11 = ai_log a10"
      "slept a11 = slept a10" "durable_ops a11 = durable_ops a10"
      using Date_now_quiet [OF s11] by simp_all
        (use s11 in \<open>auto simp: Date_now_def\<close>)
    have f12: "quiet_step (push_history m a11) a12" "ai_log a12 = ai_log a11" "slept a12 = slept a11"
      "durable_ops a12 = Suc (durable_ops a11)"
      using saveMessage_quiet [OF s12] saveMessage_ops [OF s12] push_history_quiet [of a11 m] by simp_all
    have q9: "quiet_step a0 a9"
      using q5 f6(1) f7(1) f8(1) f9(1) by (blast intro: quiet_step_trans)
    have q11: "quiet_step a0 a11"
      using q9 f10(1) f11(1) by (blast intro: quiet_step_trans)
    have q12: "quiet_step a0 a12"
      using q11 push_history_quiet [of a11 m] f12(1) by (blast intro: quiet_step_trans)
    have c9: "c + 3 \<le> clock_reads a9"
      using q5 f6(1) f7(1) f8(1) f9(1) f1(5) f2(5) f3(5) f4(5) f5(1) push_history_quiet [of a4 u]
      by (simp add: quiet_step_def)
    have mts: "\<exists>k\<ge>c + 3. msg_timestamp m = clock a0 k"
      using c9 q9 f10(6) by (auto simp: m_def quiet_step_def world_same_def)
    have q8: "quiet_step a0 a8"
      using q5 f6(1) f7(1) f8(1) by (blast intro: quiet_step_trans)
    have r8: "random_reads a0 < random_reads a8"
      using f1(7) f2(7) f3(8) f4(1) f5(1) f6(1) f7(1) f8(1) push_history_quiet [of a4 u]
      by (simp add: quiet_step_def)
    have "msg_id m = show_int (clock a0 (clock_reads a8)) @ ''-'' @ random a0 (random_reads a8)"
      using f9(6) q8 by (simp add: m_def quiet_step_def world_same_def)
    with r8 have mid: "\<exists>k j. random_reads a0 < j \<and>
              msg_id m = show_int (clock a0 k) @ ''-'' @ random a0 j"
      by blast
    have mf: "msg_role m = Assistant" "msg_content m = aiResponse" "msg_content m \<noteq> []"
      using f8(4) by (simp_all add: m_def)
    have ops11: "durable (push_history m a11) = durable a0"
      "durable_ops (push_history m a11) = durable_ops a0 + 1"
      using q11 f5(4) f6(4) f7(4) f8(3) f9(5) f10(5) f11(5) d0 f4(6) f3(6) f2(6) f1(6)
        push_history_quiet [of a11 m] push_history_quiet [of a4 u]
      by (simp_all add: quiet_step_def world_same_def)
    show ?thesis
    proof (cases r12)
      case (Inl e)
      with pm s1 s3 s4 s5 \<open>r5 = Inr x5\<close> s7 s8 s9 s10 s11 s12 have "res = Inl e" "a' = a12"
        by (simp_all add: processMessage_def Let_def s_def [symmetric] truthyId_def [symmetric]
            a2_def [symmetric] u_def [symmetric] who_def [symmetric] a6_def [symmetric]
            ctx_def [symmetric] m_def [symmetric])
      moreover have dk: "durable a0 (durable_ops a0 + 1) = Some e"
        using saveMessage_rows [OF s12] Inl ops11 by simp
      moreover have "\<exists>j<3. durable a0 (durable_ops a0 + j) = Some e"
        using dk by (intro exI [of _ 1]) simp
      ultimately show ?thesis using q12 uts uf uid
        by (intro conjI exI [of _ u]) (simp_all add: c_def)
    next
      case (Inr x12)
      have r12: "sql_messages a12 = sql_messages a0 @ [u, m]"
        using saveMessage_rows [OF s12] Inr r5 f6 f7 f8 f9 f10 f11 push_history_quiet [of a11 m]
        by simp
      define a13 where "a13 = storeInMemory aiResponse ''conversation'' asstMsgId who ''assistant'' a12"
      obtain r14 a14 where s14: "saveState a13 = (r14, a14)" by (cases "saveState a13")
      define a15 where "a15 = trimHistory a14"
      obtain logTime a16 where s16: "Date_now a15 = (logTime, a16)" by (cases "Date_now a15")
      have f13: "quiet_step a12 a13" "sql_messages a13 = sql_messages a12" "slept a13 = slept a12"
        "durable_ops a13 = durable_ops a12"
        "ai_log a13 = ai_log a12 @ [EmbedRequest EMBEDDING_MODEL aiResponse]"
        using storeInMemory_quiet [OF a13_def [symmetric]] by simp_all
      have f14: "quiet_step a13 a14" "sql_messages a14 = sql_messages a13" "ai_log a14 = ai_log a13"
        "slept a14 = slept a13"
        using saveState_quiet [OF s14] by simp_all
      have f15: "quiet_step a14 a15" "sql_messages a15 = sql_messages a14" "ai_log a15 = ai_log a14"
        "slept a15 = slept a14"
        using trimHistory_quiet [of a14] by (simp_all add: a15_def)
      have f16: "quiet_step a15 a16" "sql_messages a16 = sql_messages a15" "ai_log a16 = ai_log a15"
        "slept a16 = slept a15"
        using Date_now_quiet [OF s16] by simp_all
      have q14: "quiet_step a0 a14"
        using q12 f13(1) f14(1) by (blast intro: quiet_step_trans)
      have q16: "quiet_step a0 a16"
        using q14 f15(1) f16(1) by (blast intro: quiet_step_trans)
      have ops13: "durable a13 = durable a0" "durable_ops a13 = durable_ops a0 + 2"
        using q12 f13 f12(4) ops11 push_history_quiet [of a11 m]
        by (simp_all add: quiet_step_def world_same_def)
      show ?thesis
      proof (cases r14)
        case (Inl e)
        with pm s1 s3 s4 s5 \<open>r5 = Inr x5\<close> s7 s8 s9 s10 s11 s12 \<open>r12 = Inr x12\<close> s14
        have "res = Inl e" "a' = a14"
          by (simp_all add: processMessage_def Let_def s_def [symmetric] truthyId_def [symmetric]
              a2_def [symmetric] u_def [symmetric] who_def [symmetric] a6_def [symmetric]
              ctx_def [symmetric] m_def [symmetric] a13_def [symmetric])
        moreover have dk: "durable a0 (durable_ops a0 + 2) = Some e"
          using saveState_result [OF s14] Inl ops13 by simp
        moreover have "\<exists>j<3. durable a0 (durable_ops a0 + j) = Some e"
          using dk by (intro exI [of _ 2]) simp
        ultimately show ?thesis using q14 uts uf uid
          by (intro conjI exI [of _ u]) (simp_all add: c_def)
      next
        case (Inr x14)
        with pm s1 s3 s4 s5 \<open>r5 = Inr x5\<close> s7 s8 s9 s10 s11 s12 \<open>r12 = Inr x12\<close> s14 s16
        have res: "res = Inr m" "a' = a16"
          by (simp_all add: processMessage_def Let_def s_def [symmetric] truthyId_def [symmetric]
              a2_def [symmetric] u_def [symmetric] who_def [symmetric] a6_def [symmetric]
              ctx_def [symmetric] m_def [symmetric] a13_def [symmetric] a15_def [symmetric])
        have rows: "sql_messages a' = sql_messages a0 @ [u, m]"
          using res r12 f13 f14 f15 f16 by simp
        have l7: "ai_log a7 = ai_log a0 @ [EmbedRequest EMBEDDING_MODEL s, EmbedRequest EMBEDDING_MODEL s]"
          using f1 f2 f3 f4 f5 f6 f7 by simp
        have log: "ai_log a' = ai_log a0 @
                [EmbedRequest EMBEDDING_MODEL s, EmbedRequest EMBEDDING_MODEL s] @
                replicate n (ChatRequest LLM_MODEL ctx) @
                [EmbedRequest EMBEDDING_MODEL (msg_content m)]"
          using res l7 n(3) f9 f10 f11 f12 f13 f14 f15 f16 mf by simp
        have sl7: "slept a7 = slept a0" "ai a7 = ai a0"
          using f1 f2 f3 f4 f5 f6 f7 q5 by (simp_all add: quiet_step_def world_same_def)
        have fail: "n = 3 \<and> msg_content m = apology \<and> slept a' = slept a0 @ [1000, 2000]"
          if h: "\<forall>j<3. isl (ai a0 (length (ai_log a0) + 2 + j))"
        proof -
          have "\<forall>j<3. isl (ai a7 (length (ai_log a7) + j))"
            using h l7 sl7 by (simp add: add.commute add.left_commute)
          from generateAIResponse_all_fail [OF this s8]
          have g: "aiResponse = apology" "slept a8 = slept a7 @ [1000, 2000]"
            "ai_log a8 = ai_log a7 @ replicate 3 (ChatRequest LLM_MODEL ctx)" by simp_all
          from g(3) n(3) have "length (replicate n (ChatRequest LLM_MODEL ctx)) =
              length (replicate 3 (ChatRequest LLM_MODEL ctx))" by simp
          then have "n = 3" by simp
          with g show ?thesis
            using res mf sl7 f9 f10 f11 f12 f13 f14 f15 f16 by simp
        qed
        have ex: "\<exists>ctx n. 1 \<le> n \<and> n \<le> 3 \<and>
              ai_log a' = ai_log a0 @
                [EmbedRequest EMBEDDING_MODEL (sanitizeInput content),
                 EmbedRequest EMBEDDING_MODEL (sanitizeInput content)] @
                replicate n (ChatRequest LLM_MODEL ctx) @
                [EmbedRequest EMBEDDING_MODEL (msg_content m)] \<and>
              ((\<forall>j<3. isl (ai a0 (length (ai_log a0) + 2 + j))) \<longrightarrow>
                 n = 3 \<and> msg_content m = apology \<and> slept a' = slept a0 @ [1000, 2000])"
          using log n(1,2) fail unfolding s_def by blast
        show ?thesis
          using res q16 uts uf uid rows mf(1,3) mts mid ex
          by (intro conjI exI [of _ u]) (simp_all add: c_def)
      qed
    qed
  qed
qed

lemma processMessage_quiet:
  "processMessage content userId a = (res, a') \<Longrightarrow> quiet_step a a'"
  by (drule processMessage_summary) simp

lemma processMessage_Inr:
  assumes "processMessage content userId a = (Inr m, a')"
  shows "\<exists>u. sql_messages a' = sql_messages a @ [u, m] \<and>
            msg_role u = User \<and> msg_content u = sanitizeInput content \<and>
            msg_timestamp u = clock a (clock_reads a + 2) \<and>
            msg_role m = Assistant \<and> msg_content m \<noteq> [] \<and>
            (\<exists>k\<ge>clock_reads a + 3. msg_timestamp m = clock a k)"
  using processMessage_summary [OF assms] by auto

lemma processMessage_Inr_ids:
  assumes "processMessage content userId a = (Inr m, a')"
  shows "\<exists>u k j. sql_messages a' = sql_messages a @ [u, m] \<and>
            msg_id u = show_int (clock a (clock_reads a + 1)) @ ''-'' @ random a (random_reads a) \<and>
            random_reads a < j \<and> msg_id m = show_int (clock a k) @ ''-'' @ random a j"
  using processMessage_summary [OF assms] by auto

lemma processMessage_Inr_log:
  assumes "processMessage content userId a = (Inr m, a')"
  shows "\<exists>ctx n. 1 \<le> n \<and> n \<le> 3 \<and>
              ai_log a' = ai_log a @
                [EmbedRequest EMBEDDING_MODEL (sanitizeInput content),
                 EmbedRequest EMBEDDING_MODEL (sanitizeInput content)] @
                replicate n (ChatRequest LLM_MODEL ctx) @
                [EmbedRequest EMBEDDING_MODEL (msg_content m)] \<and>
              ((\<forall>j<3. isl (ai a (length (ai_log a) + 2 + j))) \<longrightarrow>
                 n = 3 \<and> msg_content m = apology \<and> slept a' = slept a @ [1000, 2000])"
  using processMessage_summary [OF assms] by auto

lemma processMessage_Inl:
  assumes "processMessage content userId a = (Inl e, a')"
  shows "\<exists>j<3. durable a (durable_ops a + j) = Some e"
  using processMessage_summary [OF assms] by auto

lemma processMessage_succeeds:
  assumes "\<forall>j<3. durable a (durable_ops a + j) = None"
  shows "\<exists>m a'. processMessage content userId a = (Inr m, a')"
proof (cases "processMessage content userId a")
  case (Pair res a')
  show ?thesis
  proof (cases res)
    case (Inl e)
    with Pair processMessage_Inl [of content userId a e a'] assms show ?thesis by auto
  next
    case (Inr m)
    with Pair show ?thesis by blast
  qed
qed

lemma sanitize_blank: "sanitizeInput '' <> '' = []"
  by (simp add: sanitizeInput_def trim_def isWhiteSpace_def)

lemma example_agent_durable: "durable example_agent k = None"
  by (simp add: example_agent_def blank_agent_def)

lemma example_agent_fields:
  "sql_messages example_agent = []" "clock example_agent k = 1000 + int k"
  "clock_reads example_agent = 0" "ai_log example_agent = []" "slept example_agent = []"
  "sent example_agent = []" "activeConnections example_agent = []"
  by (simp_all add: example_agent_def blank_agent_def)

text \<open>
  C2, as the code has it. \<open>processMessage\<close> checks nothing about the sanitized content
  and has no validation error: the only failures it can end with are those of its three
  writes to durable storage (the two messages and the state). When these writes succeed it
  returns an assistant message with content, for every input, and has stored the user
  message with the sanitized content, empty or not, before it.
\<close>

theorem processMessage_no_validation:
  "(\<forall>e a'. processMessage content userId a = (Inl e, a') \<longrightarrow>
       (\<exists>j<3. durable a (durable_ops a + j) = Some e)) \<and>
   ((\<forall>j<3. durable a (durable_ops a + j) = None) \<longrightarrow>
       (\<exists>m u a'. processMessage content userId a = (Inr m, a') \<and>
          msg_role m = Assistant \<and> msg_content m \<noteq> [] \<and>
          sql_messages a' = sql_messages a @ [u, m] \<and>
          msg_role u = User \<and> msg_content u = sanitizeInput content))"
proof (intro conjI allI impI)
  fix e a'
  assume "processMessage content userId a = (Inl e, a')"
  then show "\<exists>j<3. durable a (durable_ops a + j) = Some e" by (rule processMessage_Inl)
next
  assume "\<forall>j<3. durable a (durable_ops a + j) = None"
  from processMessage_succeeds [OF this] obtain m a' where
    p: "processMessage content userId a = (Inr m, a')" by blast
  from processMessage_Inr [OF p] p
  show "\<exists>m u a'. processMessage content userId a = (Inr m, a') \<and>
          msg_role m = Assistant \<and> msg_content m \<noteq> [] \<and>
          sql_messages a' = sql_messages a @ [u, m] \<and>
          msg_role u = User \<and> msg_content u = sanitizeInput content"
    by blast
qed

text \<open>
  C2, at a concrete input: the input \<open>" <> "\<close> is empty once sanitized, and the turn
  stores a user message with empty content and returns an assistant message.
\<close>

theorem processMessage_no_validation_witness:
  "sanitizeInput '' <> '' = [] \<and>
   durable example_agent (durable_ops example_agent) = None \<and>
   durable example_agent (durable_ops example_agent + 1) = None \<and>
   durable example_agent (durable_ops example_agent + 2) = None \<and>
   (\<exists>m u a'. processMessage '' <> '' None example_agent = (Inr m, a') \<and>
      msg_role m = Assistant \<and> msg_content m \<noteq> [] \<and>
      sql_messages a' = [u, m] \<and> msg_role u = User \<and> msg_content u = [])"
  using processMessage_no_validation [of "'' <> ''" None example_agent]
  by (simp add: sanitize_blank example_agent_durable example_agent_fields)

text \<open>
  C2 as stated fails: on an input that is empty once sanitized, \<open>processMessage\<close> returns
  an assistant message and not an error.
\<close>

theorem empty_content_counterexample:
  "sanitizeInput '' <> '' = [] \<and> \<not> isl (fst blank_turn) \<and>
   msg_role (projr (fst blank_turn)) = Assistant"
proof -
  have "\<forall>j<3. durable example_agent (durable_ops example_agent + j) = None"
    by (simp add: example_agent_durable)
  from processMessage_succeeds [OF this] obtain m a' where
    p: "processMessage '' <> '' None example_agent = (Inr m, a')" by blast
  from processMessage_Inr [OF p] have "msg_role m = Assistant" by blast
  with p show ?thesis by (simp add: blank_turn_def sanitize_blank)
qed

text \<open>
  C9, as the code has it. Both timestamps are readings of \<open>Date.now()\<close>, the user
  message's taken before the assistant message's. When the clock never goes back, the
  assistant message returned has a timestamp not smaller than that of the user message
  stored just before it in the same turn; nothing makes it greater.
\<close>

theorem assistant_timestamp_not_before:
  assumes "\<forall>i j. i \<le> j \<longrightarrow> clock a i \<le> clock a j"
      and "processMessage content userId a = (Inr m, a')"
  shows "\<exists>u. sql_messages a' = sql_messages a @ [u, m] \<and> msg_role u = User \<and>
            msg_role m = Assistant \<and> msg_timestamp u \<le> msg_timestamp m"
proof -
  from processMessage_Inr [OF assms(2)] obtain u k where
    u: "sql_messages a' = sql_messages a @ [u, m]" "msg_role u = User" "msg_role m = Assistant"
       "msg_timestamp u = clock a (clock_reads a + 2)"
    and k: "clock_reads a + 3 \<le> k" "msg_timestamp m = clock a k"
    by blast
  from k(1) have "clock_reads a + 2 \<le> k" by simp
  with assms(1) have "clock a (clock_reads a + 2) \<le> clock a k" by blast
  with u k show ?thesis by auto
qed

text \<open>
  C9, at a concrete input: a clock that advances with each reading.
\<close>

theorem assistant_timestamp_not_before_witness:
  "\<exists>m a' u. processMessage ''Hi'' None example_agent = (Inr m, a') \<and>
      sql_messages a' = [u, m] \<and> msg_role u = User \<and> msg_role m = Assistant \<and>
      msg_timestamp u \<le> msg_timestamp m"
proof -
  have mono: "\<forall>i j. i \<le> j \<longrightarrow> clock example_agent i \<le> clock example_agent j"
    by (simp add: example_agent_fields)
  have "\<forall>j<3. durable example_agent (durable_ops example_agent + j) = None"
    by (simp add: example_agent_durable)
  from processMessage_succeeds [OF this] obtain m a' where
    p: "processMessage ''Hi'' None example_agent = (Inr m, a')" by blast
  from assistant_timestamp_not_before [OF mono p] p show ?thesis
    by (auto simp: example_agent_fields)
qed

lemma frozen_agent_fields:
  "durable frozen_agent k = None" "clock frozen_agent k = 1000" "sql_messages frozen_agent = []"
  "random frozen_agent k = (if k = 0 then ''abc'' else ''xyz'')" "random_reads frozen_agent = 0"
  by (simp_all add: frozen_agent_def blank_agent_def)

text \<open>
  C9 as stated fails: when all readings of the clock within one turn fall in the same
  millisecond, the two timestamps are equal (the two messages have different ids).
\<close>

theorem assistant_timestamp_counterexample:
  "fst frozen_turn = Inr (sql_messages (snd frozen_turn) ! 1) \<and>
   map msg_id (sql_messages (snd frozen_turn)) = [''1000-abc'', ''1000-xyz''] \<and>
   msg_role (sql_messages (snd frozen_turn) ! 0) = User \<and>
   msg_role (sql_messages (snd frozen_turn) ! 1) = Assistant \<and>
   \<not> msg_timestamp (sql_messages (snd frozen_turn) ! 0)
       < msg_timestamp (sql_messages (snd frozen_turn) ! 1)"
proof -
  have "\<forall>j<3. durable frozen_agent (durable_ops frozen_agent + j) = None"
    by (simp add: frozen_agent_fields)
  from processMessage_succeeds [OF this] obtain m a' where
    p: "processMessage ''Hi'' None frozen_agent = (Inr m, a')" by blast
  from processMessage_Inr [OF p] obtain u where
    r: "sql_messages a' = [u, m]" "msg_role u = User" "msg_role m = Assistant"
       "msg_timestamp u = 1000" "msg_timestamp m = 1000"
    by (auto simp: frozen_agent_fields)
  from processMessage_Inr_ids [OF p] r(1) have
    "msg_id u = ''1000-abc''" "msg_id m = ''1000-xyz''"
    by (auto simp: frozen_agent_fields show_int_1000)
  with p r show ?thesis by (simp add: frozen_turn_def)
qed

text \<open>
  C3, as the code has it. When the three calls of the primary model in a turn fail, and
  the writes to durable storage succeed, \<open>processMessage\<close> returns an assistant message
  whose content is the fixed, non-empty apology; the user message and this assistant
  message are stored; the chat requests of the turn are exactly three, all to
  \<open>LLM_MODEL\<close>, with pauses of 1000 ms and 2000 ms between them. No other model is asked.
\<close>

theorem inference_failure_apology:
  assumes "\<forall>j<3. isl (ai a (length (ai_log a) + 2 + j))"
      and "\<forall>j<3. durable a (durable_ops a + j) = None"
  shows "\<exists>m u a' ctx.
           processMessage content userId a = (Inr m, a') \<and>
           msg_role m = Assistant \<and> msg_content m = apology \<and> apology \<noteq> [] \<and>
           sql_messages a' = sql_messages a @ [u, m] \<and>
           msg_role u = User \<and> msg_content u = sanitizeInput content \<and>
           filter is_chat (drop (length (ai_log a)) (ai_log a'))
             = replicate 3 (ChatRequest LLM_MODEL ctx) \<and>
           slept a' = slept a @ [1000, 2000]"
proof -
  from processMessage_succeeds [OF assms(2)] obtain m a' where
    p: "processMessage content userId a = (Inr m, a')" by blast
  from processMessage_Inr [OF p] obtain u where
    u: "sql_messages a' = sql_messages a @ [u, m]" "msg_role u = User"
       "msg_content u = sanitizeInput content" "msg_role m = Assistant"
    by blast
  from processMessage_Inr_log [OF p] assms(1) obtain ctx where
    l: "ai_log a' = ai_log a @
          [EmbedRequest EMBEDDING_MODEL (sanitizeInput content),
           EmbedRequest EMBEDDING_MODEL (sanitizeInput content)] @
          replicate 3 (ChatRequest LLM_MODEL ctx) @
          [EmbedRequest EMBEDDING_MODEL (msg_content m)]"
    and f: "msg_content m = apology" "slept a' = slept a @ [1000, 2000]"
    by blast
  have "filter is_chat (drop (length (ai_log a)) (ai_log a'))
          = replicate 3 (ChatRequest LLM_MODEL ctx)"
    unfolding l by simp
  with p u f apology_nonempty show ?thesis by blast
qed

lemma down_agent_fields:
  "durable down_agent k = None" "isl (ai down_agent k)" "ai_log down_agent = []"
  "sql_messages down_agent = []" "slept down_agent = []"
  by (simp_all add: down_agent_def blank_agent_def)

text \<open>
  C3, at a concrete input: an agent whose model always fails.
\<close>

theorem inference_failure_apology_witness:
  "isl (ai down_agent 2) \<and> isl (ai down_agent 3) \<and> isl (ai down_agent 4) \<and>
   (\<exists>m u a' ctx.
      processMessage ''Hi'' None down_agent = (Inr m, a') \<and>
      msg_content m = apology \<and> sql_messages a' = [u, m] \<and>
      filter is_chat (ai_log a') = replicate 3 (ChatRequest LLM_MODEL ctx) \<and>
      slept a' = [1000, 2000])"
proof -
  have a: "\<forall>j<3. isl (ai down_agent (length (ai_log down_agent) + 2 + j))"
    and d: "\<forall>j<3. durable down_agent (durable_ops down_agent + j) = None"
    by (simp_all add: down_agent_fields)
  from inference_failure_apology [OF a d, of "''Hi''" None] show ?thesis
    by (simp add: down_agent_fields) blast
qed

text \<open>
  C3 as stated fails: after the three failed calls of the primary model the apology is
  returned, and every chat request of the turn named the primary model: no fallback model
  was tried.
\<close>

theorem no_fallback_counterexample:
  "fst down_turn = Inr (last (sql_messages (snd down_turn))) \<and>
   msg_content (last (sql_messages (snd down_turn))) = apology \<and>
   map request_model (filter is_chat (ai_log (snd down_turn)))
     = [LLM_MODEL, LLM_MODEL, LLM_MODEL]"
proof -
  have a: "\<forall>j<3. isl (ai down_agent (length (ai_log down_agent) + 2 + j))"
    and d: "\<forall>j<3. durable down_agent (durable_ops down_agent + j) = None"
    by (simp_all add: down_agent_fields)
  from processMessage_succeeds [OF d] obtain m a' where
    p: "processMessage ''Hi'' None down_agent = (Inr m, a')" by blast
  from processMessage_Inr [OF p] have s: "last (sql_messages a') = m" by auto
  from processMessage_Inr_log [OF p] a obtain ctx where
    l: "ai_log a' = ai_log down_agent @
          [EmbedRequest EMBEDDING_MODEL (sanitizeInput ''Hi''),
           EmbedRequest EMBEDDING_MODEL (sanitizeInput ''Hi'')] @
          replicate 3 (ChatRequest LLM_MODEL ctx) @
          [EmbedRequest EMBEDDING_MODEL (msg_content m)]"
    and f: "msg_content m = apology"
    by blast
  have "map request_model (filter is_chat (ai_log a')) = [LLM_MODEL, LLM_MODEL, LLM_MODEL]"
    unfolding l by (simp add: down_agent_fields numeral_3_eq_3)
  with p s f show ?thesis by (simp add: down_turn_def)
qed

section \<open>Properties of the streaming of a turn\<close>

lemma split_nonempty: "split sep s \<noteq> []"
  by (induction s) (auto split: list.splits)

lemma join_Cons_head: "join sep ((c # w) # ws) = c # join sep (w # ws)"
  by (cases ws) simp_all

lemma join_split: "join [sep] (split sep s) = s"
proof (induction s)
  case Nil
  show ?case by simp
next
  case (Cons c cs)
  obtain w ws where w: "split sep cs = w # ws"
    using split_nonempty [of sep cs] by (cases "split sep cs") auto
  show ?case
  proof (cases "c = sep")
    case True
    with Cons w show ?thesis by simp
  next
    case False
    with Cons w show ?thesis by (simp add: join_Cons_head)
  qed
qed

lemma token_texts_append: "token_texts ws (xs @ ys) = token_texts ws xs @ token_texts ws ys"
  by (induction ws xs rule: token_texts.induct) auto

lemma stream_loop_sent:
  "\<exists>evs. sent (stream_loop ws words a) = sent a @ evs \<and>
         map fst evs = replicate (length evs) ws \<and>
         concat (token_texts ws evs) = join '' '' words \<and>
         list_all (\<lambda>x. event_content (snd x) \<noteq> None) evs \<and>
         length evs = length words"
proof (induction words arbitrary: a)
  case Nil
  show ?case by simp
next
  case (Cons w rest)
  define word where "word = w @ (if rest \<noteq> [] then '' '' else [])"
  define a2 where "a2 = sendWebSocketMessage ws (Token word (clock a (clock_reads a)))
                          (a\<lparr>clock_reads := Suc (clock_reads a)\<rparr>)"
  have step: "stream_loop ws (w # rest) a = stream_loop ws rest (sleep 50 a2)"
    by (simp add: Let_def Date_now_def word_def a2_def)
  have s2: "sent (sleep 50 a2) = sent a @ [(ws, Token word (clock a (clock_reads a)))]"
    by (simp add: sleep_def a2_def sendWebSocketMessage_def)
  from Cons.IH [of "sleep 50 a2"] obtain evs where
    e: "sent (stream_loop ws rest (sleep 50 a2)) = sent (sleep 50 a2) @ evs"
      "map fst evs = replicate (length evs) ws"
      "concat (token_texts ws evs) = join '' '' rest"
      "list_all (\<lambda>x. event_content (snd x) \<noteq> None) evs"
      "length evs = length rest"
    by blast
  let ?evs = "(ws, Token word (clock a (clock_reads a))) # evs"
  have j: "word @ join '' '' rest = join '' '' (w # rest)"
    by (cases rest) (simp_all add: word_def)
  have "sent (stream_loop ws (w # rest) a) = sent a @ ?evs"
    using step e(1) s2 by simp
  moreover have "map fst ?evs = replicate (length ?evs) ws" using e(2) by simp
  moreover have "concat (token_texts ws ?evs) = join '' '' (w # rest)" using e(3) j by simp
  moreover have "list_all (\<lambda>x. event_content (snd x) \<noteq> None) ?evs" using e(4) by simp
  moreover have "length ?evs = length (w # rest)" using e(5) by simp
  ultimately show ?case by blast
qed

lemma stream_loop_frame:
  "world_same a (stream_loop ws words a) \<and>
   sql_messages (stream_loop ws words a) = sql_messages a \<and>
   activeConnections (stream_loop ws words a) = activeConnections a \<and>
   ai_log (stream_loop ws words a) = ai_log a"
proof (induction words arbitrary: a)
  case Nil
  show ?case by (simp add: world_same_def)
next
  case (Cons w rest)
  define a2 where "a2 = sleep 50 (sendWebSocketMessage ws
      (Token (w @ (if rest \<noteq> [] then '' '' else [])) (clock a (clock_reads a)))
      (a\<lparr>clock_reads := Suc (clock_reads a)\<rparr>))"
  have step: "stream_loop ws (w # rest) a = stream_loop ws rest a2"
    by (simp add: Let_def Date_now_def a2_def)
  have "world_same a a2" "sql_messages a2 = sql_messages a"
    "activeConnections a2 = activeConnections a" "ai_log a2 = ai_log a"
    by (simp_all add: a2_def sleep_def sendWebSocketMessage_def world_same_def)
  with Cons.IH [of a2] show ?case
    unfolding step by (simp add: world_same_def)
qed

text \<open>What one chat turn sends, by the outcome of the pipeline.\<close>

lemma handleChatMessage_cases:
  assumes h: "handleChatMessage ws content userId a = (r, a')"
  obtains (complete) t0 m a3 toks t where
      "processMessage content userId
         (sendWebSocketMessage ws (Typing t0) (snd (Date_now a))) = (Inr m, a3)"
      "sent a' = sent a @ (ws, Typing t0) # toks @ [(ws, MessageComplete (msg_id m) t)]"
      "map fst toks = replicate (length toks) ws"
      "list_all (\<lambda>x. event_content (snd x) \<noteq> None) toks"
      "toks \<noteq> []"
      "concat (token_texts ws toks) = msg_content m"
      "sql_messages a' = sql_messages a3"
      "last (sql_messages a') = m"
      "sql_messages a' \<noteq> []"
      "msg_role m = Assistant"
      "activeConnections a' = activeConnections a"
      "r = Inr ()"
      "sent a3 = sent a @ [(ws, Typing t0)]"
      "\<exists>u. sql_messages a3 = sql_messages a @ [u, m] \<and> msg_role u = User \<and>
           msg_content u = sanitizeInput content"
  | (failed) t0 e a3 t where
      "processMessage content userId
         (sendWebSocketMessage ws (Typing t0) (snd (Date_now a))) = (Inl (Error e), a3)"
      "sent a' = sent a @ [(ws, Typing t0),
                           (ws, ErrorEvent ''Failed to process message'' (Some e) t)]"
      "activeConnections a' = activeConnections a"
  | (undefined) t0 a3 where
      "processMessage content userId
         (sendWebSocketMessage ws (Typing t0) (snd (Date_now a))) = (Inl Undefined, a3)"
      "sent a' = sent a @ [(ws, Typing t0)]"
      "activeConnections a' = activeConnections a"
proof -
  obtain t0 a1 where d: "Date_now a = (t0, a1)" by (cases "Date_now a")
  define a2 where "a2 = sendWebSocketMessage ws (Typing t0) a1"
  obtain res a3 where p: "processMessage content userId a2 = (res, a3)"
    by (cases "processMessage content userId a2")
  have s2: "sent a2 = sent a @ [(ws, Typing t0)]" "activeConnections a2 = activeConnections a"
    "sql_messages a2 = sql_messages a"
    using d by (auto simp: a2_def sendWebSocketMessage_def Date_now_def)
  have q: "quiet_step a2 a3" using p by (rule processMessage_quiet)
  have s3: "sent a3 = sent a @ [(ws, Typing t0)]" "activeConnections a3 = activeConnections a"
    using q s2 by (simp_all add: quiet_step_def)
  have a2': "a2 = sendWebSocketMessage ws (Typing t0) (snd (Date_now a))"
    using d by (simp add: a2_def)
  show ?thesis
  proof (cases res)
    case (Inr m)
    define a4 where "a4 = streamResponse ws (msg_content m) a3"
    obtain t a5 where d5: "Date_now a4 = (t, a5)" by (cases "Date_now a4")
    from h d p Inr d5 have a': "a' = sendWebSocketMessage ws (MessageComplete (msg_id m) t) a5"
      and r: "r = Inr ()"
      by (auto simp: handleChatMessage_def Let_def a2_def [symmetric] a4_def [symmetric])
    from stream_loop_sent [of ws "split CHR '' '' (msg_content m)" a3] obtain toks where
      t: "sent a4 = sent a3 @ toks" "map fst toks = replicate (length toks) ws"
         "concat (token_texts ws toks) = join '' '' (split CHR '' '' (msg_content m))"
         "list_all (\<lambda>x. event_content (snd x) \<noteq> None) toks"
         "length toks = length (split CHR '' '' (msg_content m))"
      unfolding a4_def streamResponse_def by blast
    have ne: "toks \<noteq> []" using t(5) split_nonempty [of "CHR '' ''" "msg_content m"] by auto
    have f4: "sql_messages a4 = sql_messages a3" "activeConnections a4 = activeConnections a3"
      using stream_loop_frame [of a3 ws "split CHR '' '' (msg_content m)"]
      by (simp_all add: a4_def streamResponse_def)
    have f5: "sent a5 = sent a4" "sql_messages a5 = sql_messages a4"
      "activeConnections a5 = activeConnections a4"
      using d5 by (auto simp: Date_now_def)
    have 1: "sent a' = sent a @ (ws, Typing t0) # toks @ [(ws, MessageComplete (msg_id m) t)]"
      using a' f5 t(1) s3 by (simp add: sendWebSocketMessage_def)
    have 2: "concat (token_texts ws toks) = msg_content m"
      using t(3) join_split [of "CHR '' ''" "msg_content m"] by simp
    have 3: "sql_messages a' = sql_messages a3" "activeConnections a' = activeConnections a"
      using a' f4 f5 s3 by (simp_all add: sendWebSocketMessage_def)
    have 4: "sql_messages a3 \<noteq> []" "last (sql_messages a3) = m" "msg_role m = Assistant"
      using processMessage_Inr [of content userId a2 m a3] p Inr by auto
    have 5: "\<exists>u. sql_messages a3 = sql_messages a @ [u, m] \<and> msg_role u = User \<and>
           msg_content u = sanitizeInput content"
      using processMessage_Inr [of content userId a2 m a3] p Inr s2(3) by auto
    show ?thesis
      using that(1) [of t0 m a3 toks t] p Inr a2' 1 2 3 4 5 s3(1) t(2,4) ne r by simp
  next
    case (Inl e)
    show ?thesis
    proof (cases e)
      case (Error msg)
      obtain t a4 where d4: "Date_now a3 = (t, a4)" by (cases "Date_now a3")
      from h d p Inl Error d4 have
        "a' = sendWebSocketMessage ws (ErrorEvent ''Failed to process message'' (Some msg) t) a4"
        by (simp add: handleChatMessage_def Let_def a2_def [symmetric])
      moreover have "sent a4 = sent a3" "activeConnections a4 = activeConnections a3"
        using d4 by (auto simp: Date_now_def)
      ultimately show ?thesis
        using that(2) [of t0 msg a3 t] p Inl Error a2' s3 by (simp add: sendWebSocketMessage_def)
    next
      case Undefined
      from h d p Inl Undefined have "a' = a3"
        by (simp add: handleChatMessage_def Let_def a2_def [symmetric])
      then show ?thesis using that(3) [of t0 a3] p Inl Undefined a2' s3 by simp
    qed
  qed
qed

lemma token_texts_other:
  "map fst evs = replicate (length evs) ws \<Longrightarrow> c \<noteq> ws \<Longrightarrow> token_texts c evs = []"
  by (induction c evs rule: token_texts.induct) auto

lemma token_texts_own:
  "map fst evs = replicate (length evs) ws \<Longrightarrow>
   list_all (\<lambda>x. event_content (snd x) \<noteq> None) evs \<Longrightarrow>
   length (token_texts ws evs) = length evs"
proof (induction evs)
  case Nil
  show ?case by simp
next
  case (Cons x evs)
  obtain c ev where x: "x = (c, ev)" by (cases x)
  from Cons.prems x obtain w t where "ev = Token w t" "c = ws"
    by (cases ev) auto
  with Cons x show ?case by simp
qed

lemma tokens_not_complete:
  "list_all (\<lambda>x. event_content (snd x) \<noteq> None) evs \<Longrightarrow> (c, MessageComplete mid t) \<notin> set evs"
  by (induction evs) auto

lemma events_since_append: "sent a' = sent a @ evs \<Longrightarrow> events_since a a' = evs"
  by (simp add: events_since_def)

text \<open>
  C4, as the code has it. In a chat turn that sends its completion event, the texts of the
  token events sent in that turn, concatenated, are the content of the assistant message
  stored last, and the completion event carries that message's id. The turn stores exactly
  two rows, the user message with the sanitized content and this assistant message; both
  are stored when the pipeline returns, before any token has been sent, and streaming
  stores nothing more.
\<close>

theorem streamed_tokens_are_message:
  assumes "handleChatMessage ws content userId a = (r, a')"
      and "(ws, MessageComplete mid t) \<in> set (events_since a a')"
  shows "sql_messages a' \<noteq> [] \<and>
         msg_id (last (sql_messages a')) = mid \<and>
         msg_role (last (sql_messages a')) = Assistant \<and>
         concat (token_texts ws (events_since a a')) = msg_content (last (sql_messages a')) \<and>
         (\<exists>u m t0 a3.
            sql_messages a' = sql_messages a @ [u, m] \<and>
            msg_role u = User \<and> msg_content u = sanitizeInput content \<and>
            msg_role m = Assistant \<and> msg_id m = mid \<and>
            concat (token_texts ws (events_since a a')) = msg_content m \<and>
            processMessage content userId
              (sendWebSocketMessage ws (Typing t0) (snd (Date_now a))) = (Inr m, a3) \<and>
            sql_messages a3 = sql_messages a' \<and>
            token_texts ws (events_since a a3) = [])"
  using assms(1)
proof (cases rule: handleChatMessage_cases)
  case (complete t0 m a3 toks t')
  have e: "events_since a a' = (ws, Typing t0) # toks @ [(ws, MessageComplete (msg_id m) t')]"
    using complete(2) by (rule events_since_append)
  from assms(2) tokens_not_complete [OF complete(4), of ws mid t] have mid: "mid = msg_id m"
    unfolding e by auto
  have tk: "token_texts ws (events_since a a') = token_texts ws toks"
    unfolding e by (simp add: token_texts_append)
  from complete(14) obtain u where
    u: "sql_messages a3 = sql_messages a @ [u, m]" "msg_role u = User"
       "msg_content u = sanitizeInput content"
    by blast
  have e3: "token_texts ws (events_since a a3) = []"
    using events_since_append [OF complete(13)] by simp
  have first: "sql_messages a' \<noteq> [] \<and>
         msg_id (last (sql_messages a')) = mid \<and>
         msg_role (last (sql_messages a')) = Assistant \<and>
         concat (token_texts ws (events_since a a')) = msg_content (last (sql_messages a'))"
    using complete mid tk by simp
  have "sql_messages a' = sql_messages a @ [u, m] \<and>
            msg_role u = User \<and> msg_content u = sanitizeInput content \<and>
            msg_role m = Assistant \<and> msg_id m = mid \<and>
            concat (token_texts ws (events_since a a')) = msg_content m \<and>
            processMessage content userId
              (sendWebSocketMessage ws (Typing t0) (snd (Date_now a))) = (Inr m, a3) \<and>
            sql_messages a3 = sql_messages a' \<and>
            token_texts ws (events_since a a3) = []"
    using complete(1,6,7,10) u mid tk e3 by simp
  with first show ?thesis by blast
next
  case (failed t0 e a3 t')
  from events_since_append [OF failed(2)] assms(2) show ?thesis by simp
next
  case (undefined t0 a3)
  from events_since_append [OF undefined(2)] assms(2) show ?thesis by simp
qed

lemma handleChatMessage_connections:
  "handleChatMessage ws content userId a = (r, a') \<Longrightarrow> activeConnections a' = activeConnections a"
  by (cases rule: handleChatMessage_cases) simp_all

text \<open>
  C5, as the code has it. Every event of a chat turn is sent on the socket the chat
  message came from, and on no other: whatever connections are attached, and they stay
  as they were, another connection receives no token of the turn.
\<close>

theorem chat_events_to_sender_only:
  "sent (snd (handleChatMessage ws content userId a))
     = sent a @ events_since a (snd (handleChatMessage ws content userId a)) \<and>
   map fst (events_since a (snd (handleChatMessage ws content userId a)))
     = replicate (length (events_since a (snd (handleChatMessage ws content userId a)))) ws \<and>
   (c \<noteq> ws \<longrightarrow> token_texts c (events_since a (snd (handleChatMessage ws content userId a))) = []) \<and>
   activeConnections (snd (handleChatMessage ws content userId a)) = activeConnections a"
proof -
  obtain r a' where h: "handleChatMessage ws content userId a = (r, a')"
    by (cases "handleChatMessage ws content userId a")
  have "\<exists>evs. sent a' = sent a @ evs \<and> map fst evs = replicate (length evs) ws \<and>
              activeConnections a' = activeConnections a"
    using h
  proof (cases rule: handleChatMessage_cases)
    case (complete t0 m a3 toks t)
    then show ?thesis by (simp add: replicate_append_same)
  next
    case (failed t0 e a3 t)
    then show ?thesis by simp
  next
    case (undefined t0 a3)
    then show ?thesis by simp
  qed
  then obtain evs where
    s: "sent a' = sent a @ evs" and f: "map fst evs = replicate (length evs) ws"
    and ac: "activeConnections a' = activeConnections a"
    by blast
  from s have e: "events_since a a' = evs" by (rule events_since_append)
  show ?thesis
    using s f ac token_texts_other [OF f] by (simp add: h e)
qed

lemma typing_sent_durable:
  "durable (sendWebSocketMessage ws ev (snd (Date_now a))) = durable a"
  by (simp add: sendWebSocketMessage_def Date_now_def)

text \<open>When durable storage never fails, a chat turn ends with its completion event.\<close>

lemma handleChatMessage_completes:
  assumes d: "\<forall>k. durable a k = None"
      and h: "handleChatMessage ws content userId a = (r, a')"
  shows "\<exists>t0 m toks t.
           sent a' = sent a @ (ws, Typing t0) # toks @ [(ws, MessageComplete (msg_id m) t)] \<and>
           map fst toks = replicate (length toks) ws \<and>
           list_all (\<lambda>x. event_content (snd x) \<noteq> None) toks \<and> toks \<noteq> [] \<and>
           last (sql_messages a') = m \<and> r = Inr ()"
  using h
proof (cases rule: handleChatMessage_cases)
  case (complete t0 m a3 toks t)
  then show ?thesis by blast
next
  case (failed t0 e a3 t)
  from processMessage_Inl [OF failed(1)] d show ?thesis
    by (simp add: typing_sent_durable)
next
  case (undefined t0 a3)
  from processMessage_Inl [OF undefined(1)] d show ?thesis
    by (simp add: typing_sent_durable)
qed

text \<open>
  C4, at a concrete input: a chat turn of the example agent.
\<close>

theorem streamed_tokens_are_message_witness:
  "\<exists>mid t. (''c1'', MessageComplete mid t) \<in> set (events_since example_agent (snd chat_turn)) \<and>
     length (sql_messages (snd chat_turn)) = 2 \<and>
     msg_id (last (sql_messages (snd chat_turn))) = mid \<and>
     msg_role (last (sql_messages (snd chat_turn))) = Assistant \<and>
     concat (token_texts ''c1'' (events_since example_agent (snd chat_turn)))
       = msg_content (last (sql_messages (snd chat_turn)))"
proof -
  obtain r a' where h: "handleChatMessage ''c1'' ''Hi'' None example_agent = (r, a')"
    by (cases "handleChatMessage ''c1'' ''Hi'' None example_agent")
  have d: "\<forall>k. durable example_agent k = None" by (simp add: example_agent_durable)
  from handleChatMessage_completes [OF d h] obtain t0 and m :: message and toks t where
    s: "sent a' = sent example_agent @ (''c1'', Typing t0) # toks @ [(''c1'', MessageComplete (msg_id m) t)]"
    by blast
  from events_since_append [OF s]
  have e: "(''c1'', MessageComplete (msg_id m) t) \<in> set (events_since example_agent a')" by simp
  from streamed_tokens_are_message [OF h e] have
    "length (sql_messages a') = 2"
    "msg_id (last (sql_messages a')) = msg_id m"
    "msg_role (last (sql_messages a')) = Assistant"
    "concat (token_texts ''c1'' (events_since example_agent a')) = msg_content (last (sql_messages a'))"
    by (auto simp: example_agent_fields)
  with e show ?thesis
    by (simp add: chat_turn_def h) blast
qed

text \<open>
  C4 as stated fails: the completion event has no content field, so its content is not the
  concatenation of the tokens.
\<close>

theorem completion_content_counterexample:
  "is_complete (snd (last (sent (snd chat_turn)))) \<and>
   event_content (snd (last (sent (snd chat_turn))))
     \<noteq> Some (concat (token_texts ''c1'' (sent (snd chat_turn))))"
proof -
  obtain r a' where h: "handleChatMessage ''c1'' ''Hi'' None example_agent = (r, a')"
    by (cases "handleChatMessage ''c1'' ''Hi'' None example_agent")
  have d: "\<forall>k. durable example_agent k = None" by (simp add: example_agent_durable)
  from handleChatMessage_completes [OF d h] obtain t0 and m :: message and toks t where
    "sent a' = sent example_agent @ (''c1'', Typing t0) # toks @ [(''c1'', MessageComplete (msg_id m) t)]"
    by blast
  then show ?thesis by (simp add: chat_turn_def h)
qed

text \<open>
  C5, at a concrete input: a turn on socket \<open>c1\<close> sends nothing to \<open>c2\<close>.
\<close>

theorem chat_events_to_sender_only_witness:
  "''c2'' \<noteq> ''c1'' \<and>
   token_texts ''c2'' (events_since example_agent (snd chat_turn)) = [] \<and>
   map fst (events_since example_agent (snd chat_turn))
     = replicate (length (events_since example_agent (snd chat_turn))) ''c1''"
  using chat_events_to_sender_only [of "''c1''" "''Hi''" None example_agent "''c2''"]
  by (simp add: chat_turn_def)

lemma show_int_1002: "show_int 1002 = ''1002''"
  by (simp add: show_int_def show_nat.simps digit_char_def)

lemma agent_two_fields:
  "activeConnections agent_two = [''1000-abc'', ''1002-abc'']"
  "sent agent_two = [(''1000-abc'', Connected ''1000-abc'' 1001),
                     (''1002-abc'', Connected ''1002-abc'' 1003)]"
  "durable agent_two k = None"
  by (simp_all add: agent_two_def handleWebSocket_def generateId_def Date_now_def Let_def
        sendWebSocketMessage_def example_agent_def blank_agent_def show_int_1000 show_int_1002)

text \<open>
  C5 as stated fails: with two connections attached, a chat message from the first is
  answered with tokens on the first socket only.
\<close>

theorem fan_out_counterexample:
  "activeConnections two_turn = [''1000-abc'', ''1002-abc''] \<and>
   token_texts ''1000-abc'' (sent two_turn) \<noteq> [] \<and>
   token_texts ''1002-abc'' (sent two_turn) = []"
proof -
  obtain r a' where h: "handleChatMessage ''1000-abc'' ''Hi'' None agent_two = (r, a')"
    by (cases "handleChatMessage ''1000-abc'' ''Hi'' None agent_two")
  have d: "\<forall>k. durable agent_two k = None" by (simp add: agent_two_fields)
  from handleChatMessage_completes [OF d h] obtain t0 and m :: message and toks t where
    s: "sent a' = sent agent_two @ (''1000-abc'', Typing t0) # toks @
                   [(''1000-abc'', MessageComplete (msg_id m) t)]"
    and f: "map fst toks = replicate (length toks) ''1000-abc''"
      "list_all (\<lambda>x. event_content (snd x) \<noteq> None) toks" "toks \<noteq> []"
    and r: "r = Inr ()"
    by blast
  have tt: "two_turn = a'"
    using h r by (simp add: two_turn_def on_message_def handleWebSocketMessage_def)
  have ac: "activeConnections a' = activeConnections agent_two"
    using handleChatMessage_connections [OF h] by simp
  have own: "token_texts ''1000-abc'' (sent a') = token_texts ''1000-abc'' toks"
    unfolding s by (simp add: token_texts_append agent_two_fields)
  have other: "token_texts ''1002-abc'' (sent a') = []"
    unfolding s using token_texts_other [OF f(1), of "''1002-abc''"]
    by (simp add: token_texts_append agent_two_fields)
  from token_texts_own [OF f(1,2)] f(3) have "token_texts ''1000-abc'' toks \<noteq> []" by auto
  with own other ac show ?thesis by (simp add: tt agent_two_fields)
qed

end
